theory Spec2Isabelle
  imports Complex_Main
begin

section \<open>Data model of \<open>penne/evaluate.py\<close>\<close>

text \<open>
  Python floats are modelled as rationals, and the metric values are taken to be numbers
  (no NaN). Every threshold the calibration loop computes is a dyadic rational with
  denominator at most \<open>2 ^ 8\<close> (lemmas \<open>reach_grid\<close> and \<open>reach_iterations_le\<close> below),
  so the halving \<open>(left + right) / 2\<close> and the difference \<open>right - left\<close> are exact in IEEE
  double arithmetic and coincide with the rational operations used here; lemma
  \<open>guard_double\<close> covers the rounding of the literal \<open>0.005\<close>. The one float addition
  whose operands are not of that form, the running total of seconds, is not computed with
  the rational \<open>+\<close> but with a parameter (\<open>float_add\<close> below). Calls of \<open>print\<close>, the
  progress bar and the creation of directories are left out.
\<close>

datatype error =
    FileNotFoundError string
  | KeyError string
  | ValueError
  | CollaboratorError string

text \<open>
  The dict literal built per stem by \<open>evaluate_per_stem\<close> (line 234) has six keys; the one
  returned by \<open>evaluate_at_threshold\<close> (line 166) has the same six and three more. Both
  are literals with fixed keys, hence records. Since every bundle stored in
  \<open>hparam_results\<close> comes from the literal of line 166, \<open>.get('f1', 0)\<close> never takes
  its default and \<open>['f1']\<close> never raises; both are the field selector \<open>f1\<close>.
\<close>

record stem_scores =
  precision :: rat
  recall :: rat
  f1 :: rat
  wrmse :: rat
  rpa :: rat
  rca :: rat

record scores = stem_scores +
  seconds :: rat
  frames :: nat
  infers :: int

subsection \<open>Python dicts as insertion-ordered association lists\<close>

fun dict_get :: "('k \<times> 'v) list \<Rightarrow> 'k \<Rightarrow> 'v option" where
  "dict_get [] k = None"
| "dict_get ((k', v) # d) k = (if k' = k then Some v else dict_get d k)"

text \<open>\<open>d[k] = v\<close>: an existing key keeps its position, a new key goes last.\<close>

fun dict_set :: "('k \<times> 'v) list \<Rightarrow> 'k \<Rightarrow> 'v \<Rightarrow> ('k \<times> 'v) list" where
  "dict_set [] k v = [(k, v)]"
| "dict_set ((k', v') # d) k v = (if k' = k then (k, v) # d else (k', v') # dict_set d k v)"

definition dict_keys :: "('k \<times> 'v) list \<Rightarrow> 'k list" where
  "dict_keys d = map fst d"

section \<open>The threshold-calibration loop (\<open>from_stems\<close>, lines 168-188)\<close>

text \<open>
  The loop's variables \<open>left\<close>, \<open>right\<close> and \<open>hparam_results\<close>, and two ghost fields that
  the source does not have: \<open>evaluated\<close> logs the argument of every call of
  \<open>evaluate_at_threshold\<close> made by the loop, in order, and \<open>iterations\<close> counts the
  completed passes through the loop body.
\<close>

record cal_state =
  left :: rat
  right :: rat
  hparam_results :: "(rat \<times> scores) list"
  evaluated :: "rat list"
  iterations :: nat

text \<open>Lines 168-170.\<close>

definition cal_init :: cal_state where
  "cal_init = \<lparr>left = 0, right = 1, hparam_results = [], evaluated = [], iterations = 0\<rparr>"

text \<open>
  Lines 172-177 for \<open>x = left\<close> and, with the same text, lines 178-183 for \<open>x = right\<close>:
  the F1 value at \<open>x\<close>, read from the table when \<open>x\<close> is a key, else obtained by calling
  \<open>evaluate_at_threshold(x, hparam_stems)\<close> (the parameter \<open>ev\<close>, which may raise) and
  storing the bundle.
\<close>

definition f1_at :: "(rat \<Rightarrow> error + scores) \<Rightarrow> rat \<Rightarrow> cal_state \<Rightarrow> error + (rat \<times> cal_state)" where
  "f1_at ev x st =
     (case dict_get (hparam_results st) x of
        Some sc \<Rightarrow> Inr (f1 sc, st)
      | None \<Rightarrow>
          (case ev x of
             Inl e \<Rightarrow> Inl e
           | Inr sc \<Rightarrow>
               Inr (f1 sc, st\<lparr>hparam_results := dict_set (hparam_results st) x sc,
                               evaluated := evaluated st @ [x]\<rparr>)))"

text \<open>Lines 172-188: one pass through the loop body.\<close>

definition loop_body :: "(rat \<Rightarrow> error + scores) \<Rightarrow> cal_state \<Rightarrow> error + cal_state" where
  "loop_body ev st =
     (case f1_at ev (left st) st of
        Inl e \<Rightarrow> Inl e
      | Inr (left_f1, st1) \<Rightarrow>
          (case f1_at ev (right st) st1 of
             Inl e \<Rightarrow> Inl e
           | Inr (right_f1, st2) \<Rightarrow>
               (let center = (left st + right st) / 2 in
                if right_f1 > left_f1
                then Inr (st2\<lparr>left := center, iterations := Suc (iterations st2)\<rparr>)
                else Inr (st2\<lparr>right := center, iterations := Suc (iterations st2)\<rparr>))))"

lemma f1_at_bounds:
  "f1_at ev x st = Inr (v, st') \<Longrightarrow> left st' = left st \<and> right st' = right st \<and> iterations st' = iterations st"
  by (auto simp: f1_at_def split: option.splits sum.splits)

lemma loop_body_halves:
  assumes "loop_body ev st = Inr st'"
  shows "right st' - left st' = (right st - left st) / 2"
proof -
  from assms obtain lf st1 rf st2 where
    a: "f1_at ev (left st) st = Inr (lf, st1)" and
    b: "f1_at ev (right st) st1 = Inr (rf, st2)"
    by (auto simp: loop_body_def split: sum.splits)
  from f1_at_bounds[OF a] f1_at_bounds[OF b]
  have eq: "left st2 = left st" "right st2 = right st" by simp_all
  from assms a b show ?thesis
    by (auto simp: loop_body_def Let_def eq field_simps split: if_splits)
qed

text \<open>Line 171: \<open>while right-left > 0.005\<close>.\<close>

function calibrate_loop :: "(rat \<Rightarrow> error + scores) \<Rightarrow> cal_state \<Rightarrow> error + cal_state" where
  "calibrate_loop ev st =
     (if right st - left st > 5 / 1000
      then (case loop_body ev st of
              Inl e \<Rightarrow> Inl e
            | Inr st' \<Rightarrow> calibrate_loop ev st')
      else Inr st)"
  by pat_completeness auto
termination
proof (relation "measure (\<lambda>(ev, st). nat \<lceil>400 * (right st - left st)\<rceil>)")
  show "wf (measure (\<lambda>(ev, st). nat \<lceil>400 * (right st - left st)\<rceil>))" by simp
next
  fix ev :: "rat \<Rightarrow> error + scores" and st st' :: cal_state
  assume g: "5 / 1000 < right st - left st" and b: "loop_body ev st = Inr st'"
  define d where "d = right st - left st"
  have h: "right st' - left st' = d / 2" using loop_body_halves[OF b] by (simp add: d_def)
  have "\<lceil>200 * d\<rceil> + 1 = \<lceil>200 * d + 1\<rceil>" by simp
  also have "\<dots> \<le> \<lceil>400 * d\<rceil>" using g by (intro ceiling_mono) (simp add: d_def)
  finally have "\<lceil>200 * d\<rceil> < \<lceil>400 * d\<rceil>" by simp
  moreover have "0 < \<lceil>400 * d\<rceil>" using g by (simp add: d_def)
  ultimately have "nat \<lceil>200 * d\<rceil> < nat \<lceil>400 * d\<rceil>" by simp
  then have "nat \<lceil>400 * (right st' - left st')\<rceil> < nat \<lceil>400 * (right st - left st)\<rceil>"
    unfolding h d_def[symmetric] by simp
  then show "((ev, st'), (ev, st)) \<in> measure (\<lambda>(ev, st). nat \<lceil>400 * (right st - left st)\<rceil>)"
    by (simp only: in_measure prod.case)
qed

declare calibrate_loop.simps [simp del]

definition calibrate :: "(rat \<Rightarrow> error + scores) \<Rightarrow> error + cal_state" where
  "calibrate ev = calibrate_loop ev cal_init"

text \<open>
  Line 194: \<open>max(iterable, key=...)\<close> raises \<open>ValueError\<close> on an empty iterable and
  otherwise returns the first element, in iteration order, whose key is maximal (a later
  element replaces the candidate only when its key is strictly greater).
\<close>

fun py_max :: "('a \<Rightarrow> rat) \<Rightarrow> 'a list \<Rightarrow> error + 'a" where
  "py_max key [] = Inl ValueError"
| "py_max key (x # xs) = Inr (foldl (\<lambda>b y. if key y > key b then y else b) x xs)"

text \<open>
  The key function \<open>lambda x: hparam_results[x]['f1']\<close>. It is only applied to keys of the
  table (lemma \<open>dict_get_key\<close>), so the lookup never raises and the second branch is
  never taken.
\<close>

definition table_f1 :: "(rat \<times> scores) list \<Rightarrow> rat \<Rightarrow> rat" where
  "table_f1 d x = (case dict_get d x of Some sc \<Rightarrow> f1 sc | None \<Rightarrow> 0)"

definition best_thresh :: "(rat \<times> scores) list \<Rightarrow> error + rat" where
  "best_thresh d = py_max (table_f1 d) (dict_keys d)"

section \<open>Scoring (\<open>evaluate_at_threshold\<close>, \<open>evaluate_per_stem\<close>)\<close>

text \<open>
  A two-dimensional numpy array: its \<open>shape[1]\<close> and its rows. \<open>a[:, :n]\<close> keeps the first
  \<open>n\<close> columns of every row.
\<close>

record array2 =
  ncols :: nat
  rows :: "rat list list"

definition slice_cols :: "array2 \<Rightarrow> nat \<Rightarrow> array2" where
  "slice_cols a n = \<lparr>ncols = min n (ncols a), rows = map (take n) (rows a)\<rparr>"

text \<open>
  The contents of \<open>model_eval_dir\<close>: the \<open>.npy\<close> files of its \<open>pitch\<close> and \<open>periodicity\<close>
  directories, keyed by stem, and the JSON files written into it, keyed by file name.
  A JSON file that was opened for writing and received nothing is \<open>Empty_file\<close>.
  \<open>json.dump\<close> and \<open>np.save\<close> themselves are taken to succeed and to write their whole
  argument.
\<close>

datatype json_doc =
    Empty_file
  | Hparam_json "(rat \<times> scores) list"
  | Per_stem_json "(string \<times> stem_scores) list"
  | Aggregate_json scores

record files =
  pitch_npy :: "string \<rightharpoonup> array2"
  periodicity_npy :: "string \<rightharpoonup> array2"
  json_files :: "string \<rightharpoonup> json_doc"

text \<open>
  The code of the repository that \<open>evaluate.py\<close> calls and that is not part of the sources
  at hand is a parameter, each call possibly raising:
  \<^item> \<open>partitions\<close>: \<open>penne.data.partitions(name)\<close>, a dict from partition name to the ordered
    list of its stems;
  \<^item> \<open>pitch_annotation\<close>: lines 140-144, the reference annotation of a stem as an array;
  \<^item> \<open>ar_predict\<close>: lines 100-106, autoregressive inference, giving pitch and periodicity;
  \<^item> \<open>predict_from_file\<close>: lines 109-115, windowed batch inference, giving pitch,
    periodicity, seconds and the number of inference calls;
  \<^item> the four accumulators \<open>F1(thresh)\<close>, \<open>WRMSE()\<close>, \<open>RPA()\<close>, \<open>RCA()\<close> as one abstract
    state of type \<open>'m\<close>: \<open>metrics_new\<close> creates them for a threshold (lines 131-135),
    \<open>metrics_update\<close> is the four \<open>update\<close> calls on pitch, annotation and periodicity
    (lines 155-158), \<open>metrics_compute\<close> the four calls giving precision, recall, f1, wrmse,
    rpa and rca (lines 161-164), \<open>metrics_reset\<close> the four \<open>reset\<close> calls (lines 236-239).

  One primitive of the language is a parameter as well: \<open>float_add\<close> is the \<open>+\<close> of two
  Python floats, IEEE double addition, which rounds its result. Line 116 adds the seconds
  of a stem to the running total with it, so that total is not in general the exact sum.
\<close>

record 'm collab =
  partitions :: "string \<Rightarrow> error + (string \<times> string list) list"
  pitch_annotation :: "string \<Rightarrow> string \<Rightarrow> error + array2"
  ar_predict :: "string \<Rightarrow> string \<Rightarrow> error + (array2 \<times> array2)"
  predict_from_file :: "string \<Rightarrow> string \<Rightarrow> error + (array2 \<times> array2 \<times> rat \<times> int)"
  metrics_new :: "rat \<Rightarrow> 'm"
  metrics_update :: "'m \<Rightarrow> array2 \<Rightarrow> array2 \<Rightarrow> array2 \<Rightarrow> error + 'm"
  metrics_compute :: "'m \<Rightarrow> error + (rat \<times> rat \<times> rat \<times> rat \<times> rat \<times> rat)"
  metrics_reset :: "'m \<Rightarrow> 'm"
  float_add :: "rat \<Rightarrow> rat \<Rightarrow> rat"

text \<open>
  Lines 139-153, and with the same text lines 207-221: what is loaded for one stem and
  handed to the \<open>update\<close> calls, as (pitch, annotation, periodicity). \<open>np.load\<close> of a file
  that does not exist raises.
\<close>

definition load_stem :: "'m collab \<Rightarrow> string \<Rightarrow> files \<Rightarrow> string \<Rightarrow> error + (array2 \<times> array2 \<times> array2)" where
  "load_stem c name fs stem =
     (case pitch_annotation c name stem of
        Inl e \<Rightarrow> Inl e
      | Inr np_annotation \<Rightarrow>
          (case pitch_npy fs stem of
             None \<Rightarrow> Inl (FileNotFoundError (''pitch/'' @ stem @ ''.npy''))
           | Some np_pitch \<Rightarrow>
               (case periodicity_npy fs stem of
                  None \<Rightarrow> Inl (FileNotFoundError (''periodicity/'' @ stem @ ''.npy''))
                | Some np_periodicity \<Rightarrow>
                    if name = ''PTDB'' \<and> ncols np_pitch > ncols np_annotation
                    then Inr (slice_cols np_pitch (ncols np_annotation), np_annotation,
                              slice_cols np_periodicity (ncols np_annotation))
                    else Inr (np_pitch, np_annotation, np_periodicity))))"

text \<open>The totals of lines 94-96, which \<open>evaluate_at_threshold\<close> reads as free variables.\<close>

record totals =
  total_seconds :: rat
  total_frames :: nat
  total_infers :: int

text \<open>Lines 138-158: the loop over the stems of \<open>evaluate_at_threshold\<close>.\<close>

fun score_stems :: "'m collab \<Rightarrow> string \<Rightarrow> files \<Rightarrow> string list \<Rightarrow> 'm \<Rightarrow> error + 'm" where
  "score_stems c name fs [] m = Inr m"
| "score_stems c name fs (stem # stems) m =
     (case load_stem c name fs stem of
        Inl e \<Rightarrow> Inl e
      | Inr (np_pitch, np_annotation, np_periodicity) \<Rightarrow>
          (case metrics_update c m np_pitch np_annotation np_periodicity of
             Inl e \<Rightarrow> Inl e
           | Inr m' \<Rightarrow> score_stems c name fs stems m'))"

text \<open>Lines 129-166.\<close>

definition evaluate_at_threshold ::
  "'m collab \<Rightarrow> string \<Rightarrow> files \<Rightarrow> totals \<Rightarrow> rat \<Rightarrow> string list \<Rightarrow> error + scores" where
  "evaluate_at_threshold c name fs tot thresh_val stems =
     (case score_stems c name fs stems (metrics_new c thresh_val) of
        Inl e \<Rightarrow> Inl e
      | Inr m \<Rightarrow>
          (case metrics_compute c m of
             Inl e \<Rightarrow> Inl e
           | Inr (precision_val, recall_val, f1_val, wrmse_val, rpa_val, rca_val) \<Rightarrow>
               Inr \<lparr>precision = precision_val, recall = recall_val, f1 = f1_val,
                    wrmse = wrmse_val, rpa = rpa_val, rca = rca_val,
                    seconds = total_seconds tot, frames = total_frames tot,
                    infers = total_infers tot\<rparr>))"

text \<open>Lines 206-239: the loop over the stems of \<open>evaluate_per_stem\<close>.\<close>

fun per_stem_loop ::
  "'m collab \<Rightarrow> string \<Rightarrow> files \<Rightarrow> string list \<Rightarrow> 'm \<Rightarrow> (string \<times> stem_scores) list
     \<Rightarrow> error + (string \<times> stem_scores) list" where
  "per_stem_loop c name fs [] m res = Inr res"
| "per_stem_loop c name fs (stem # stems) m res =
     (case load_stem c name fs stem of
        Inl e \<Rightarrow> Inl e
      | Inr (np_pitch, np_annotation, np_periodicity) \<Rightarrow>
          (case metrics_update c m np_pitch np_annotation np_periodicity of
             Inl e \<Rightarrow> Inl e
           | Inr m' \<Rightarrow>
               (case metrics_compute c m' of
                  Inl e \<Rightarrow> Inl e
                | Inr (precision_val, recall_val, f1_val, wrmse_val, rpa_val, rca_val) \<Rightarrow>
                    per_stem_loop c name fs stems (metrics_reset c m')
                      (dict_set res stem
                         \<lparr>precision = precision_val, recall = recall_val, f1 = f1_val,
                          wrmse = wrmse_val, rpa = rpa_val, rca = rca_val\<rparr>))))"

text \<open>Lines 196-240.\<close>

definition evaluate_per_stem ::
  "'m collab \<Rightarrow> string \<Rightarrow> files \<Rightarrow> rat \<Rightarrow> string list \<Rightarrow> error + (string \<times> stem_scores) list" where
  "evaluate_per_stem c name fs thresh_val stems =
     per_stem_loop c name fs stems (metrics_new c thresh_val) []"

section \<open>The prediction pass (\<open>from_stems\<close>, lines 94-125)\<close>

text \<open>Lines 120-125.\<close>

definition np_save :: "files \<Rightarrow> string \<Rightarrow> array2 \<Rightarrow> array2 \<Rightarrow> files" where
  "np_save fs stem np_pitch np_periodicity =
     fs\<lparr>pitch_npy := (pitch_npy fs)(stem \<mapsto> np_pitch),
        periodicity_npy := (periodicity_npy fs)(stem \<mapsto> np_periodicity)\<rparr>"

text \<open>
  Lines 98-125: the loop over \<open>hparam_stems + test_stems\<close>. The result is paired with the
  files as they are when the loop ends or raises.
\<close>

fun predicting ::
  "'m collab \<Rightarrow> string \<Rightarrow> bool \<Rightarrow> string list \<Rightarrow> totals \<Rightarrow> files \<Rightarrow> (error + totals) \<times> files" where
  "predicting c name ar [] tot fs = (Inr tot, fs)"
| "predicting c name ar (stem # stems) tot fs =
     (if ar
      then (case ar_predict c name stem of
              Inl e \<Rightarrow> (Inl e, fs)
            | Inr (pitch, periodicity) \<Rightarrow>
                predicting c name ar stems tot (np_save fs stem pitch periodicity))
      else (case predict_from_file c name stem of
              Inl e \<Rightarrow> (Inl e, fs)
            | Inr (pitch, periodicity, secs, infs) \<Rightarrow>
                predicting c name ar stems
                  (tot\<lparr>total_seconds := float_add c (total_seconds tot) secs,
                       total_frames := total_frames tot + ncols pitch,
                       total_infers := total_infers tot + infs\<rparr>)
                  (np_save fs stem pitch periodicity)))"

text \<open>Lines 94-125.\<close>

definition prediction_pass ::
  "'m collab \<Rightarrow> string \<Rightarrow> bool \<Rightarrow> string list \<Rightarrow> string list \<Rightarrow> bool \<Rightarrow> files
     \<Rightarrow> (error + totals) \<times> files" where
  "prediction_pass c name skip_predictions hparam_stems test_stems ar fs =
     (let tot = \<lparr>total_seconds = 0, total_frames = 0, total_infers = 0\<rparr> in
      if \<not> skip_predictions
      then predicting c name ar (hparam_stems @ test_stems) tot fs
      else (Inr tot, fs))"

section \<open>The orchestrator (\<open>from_stems\<close>, \<open>dataset\<close>, \<open>dataset_to_file\<close>)\<close>

definition hparam_file :: "string \<Rightarrow> string \<Rightarrow> string" where
  "hparam_file model_name name = ''hparam_'' @ model_name @ ''_on_'' @ name @ ''.json''"

definition per_stem_file :: "string \<Rightarrow> string \<Rightarrow> string" where
  "per_stem_file model_name name = ''per_stem_'' @ model_name @ ''_on_'' @ name @ ''.json''"

definition aggregate_file :: "string \<Rightarrow> string \<Rightarrow> string" where
  "aggregate_file model_name name = model_name @ ''_on_'' @ name @ ''.json''"

text \<open>\<open>open(file, 'w')\<close> creates the file or empties it.\<close>

definition open_w :: "files \<Rightarrow> string \<Rightarrow> files" where
  "open_w fs file = fs\<lparr>json_files := (json_files fs)(file \<mapsto> Empty_file)\<rparr>"

definition json_dump :: "files \<Rightarrow> string \<Rightarrow> json_doc \<Rightarrow> files" where
  "json_dump fs file doc = fs\<lparr>json_files := (json_files fs)(file \<mapsto> doc)\<rparr>"

text \<open>
  Lines 71-245. The arguments \<open>model\<close> and \<open>device\<close> only reach the inference collaborators
  and are left out. The result is paired with the files as they are when the function
  returns or raises. In lines 243-244 the file is opened before the argument of
  \<open>json.dump\<close> is evaluated.
\<close>

definition from_stems ::
  "'m collab \<Rightarrow> string \<Rightarrow> string \<Rightarrow> bool \<Rightarrow> string list \<Rightarrow> string list \<Rightarrow> bool \<Rightarrow> files
     \<Rightarrow> (error + scores) \<times> files" where
  "from_stems c name model_name skip_predictions hparam_stems test_stems ar fs =
     (case prediction_pass c name skip_predictions hparam_stems test_stems ar fs of
        (Inl e, fs1) \<Rightarrow> (Inl e, fs1)
      | (Inr tot, fs1) \<Rightarrow>
          (case calibrate (\<lambda>thresh_val. evaluate_at_threshold c name fs1 tot thresh_val hparam_stems) of
             Inl e \<Rightarrow> (Inl e, fs1)
           | Inr st \<Rightarrow>
               (let fs2 = json_dump (open_w fs1 (hparam_file model_name name))
                            (hparam_file model_name name) (Hparam_json (hparam_results st)) in
                case best_thresh (hparam_results st) of
                  Inl e \<Rightarrow> (Inl e, fs2)
                | Inr best \<Rightarrow>
                    (let fs3 = open_w fs2 (per_stem_file model_name name) in
                     case evaluate_per_stem c name fs3 best test_stems of
                       Inl e \<Rightarrow> (Inl e, fs3)
                     | Inr res \<Rightarrow>
                         (let fs4 = json_dump fs3 (per_stem_file model_name name) (Per_stem_json res) in
                          (evaluate_at_threshold c name fs4 tot best test_stems, fs4))))))"

text \<open>Python's \<open>d[k]\<close>.\<close>

definition dict_index :: "(string \<times> 'v) list \<Rightarrow> string \<Rightarrow> error + 'v" where
  "dict_index d k = (case dict_get d k of None \<Rightarrow> Inl (KeyError k) | Some v \<Rightarrow> Inr v)"

text \<open>Lines 37-41: the stems that \<open>dataset\<close> hands to \<open>from_stems\<close>.\<close>

definition dataset_stems :: "'m collab \<Rightarrow> string \<Rightarrow> string \<Rightarrow> error + (string list \<times> string list)" where
  "dataset_stems c name partition_name =
     (case partitions c name of
        Inl e \<Rightarrow> Inl e
      | Inr parts \<Rightarrow>
          (case dict_index parts ''train'' of
             Inl e \<Rightarrow> Inl e
           | Inr train_stems \<Rightarrow>
               (let hparam_stems = take (length train_stems div 5) train_stems in
                case dict_index parts partition_name of
                  Inl e \<Rightarrow> Inl e
                | Inr test_stems \<Rightarrow> Inr (hparam_stems, test_stems))))"

text \<open>Lines 22-47.\<close>

definition dataset ::
  "'m collab \<Rightarrow> string \<Rightarrow> string \<Rightarrow> string \<Rightarrow> bool \<Rightarrow> bool \<Rightarrow> files \<Rightarrow> (error + scores) \<times> files" where
  "dataset c name partition_name model_name skip_predictions ar fs =
     (case dataset_stems c name partition_name of
        Inl e \<Rightarrow> (Inl e, fs)
      | Inr (hparam_stems, test_stems) \<Rightarrow>
          from_stems c name model_name skip_predictions hparam_stems test_stems ar fs)"

text \<open>
  Lines 50-68: the file is opened before \<open>dataset\<close> runs; when \<open>dataset\<close> raises, nothing
  is dumped.
\<close>

definition dataset_to_file ::
  "'m collab \<Rightarrow> string \<Rightarrow> string \<Rightarrow> string \<Rightarrow> bool \<Rightarrow> bool \<Rightarrow> files \<Rightarrow> (error + unit) \<times> files" where
  "dataset_to_file c name partition_name model_name skip_predictions ar fs =
     (let fs0 = open_w fs (aggregate_file model_name name) in
      case dataset c name partition_name model_name skip_predictions ar fs0 of
        (Inl e, fs1) \<Rightarrow> (Inl e, fs1)
      | (Inr results, fs1) \<Rightarrow>
          (Inr (), json_dump fs1 (aggregate_file model_name name) (Aggregate_json results)))"

section \<open>Invariants of the calibration loop\<close>

text \<open>
  The table and the log of calls agree: the keys of the table are the logged thresholds in
  call order, no threshold is logged twice, and every stored bundle is what
  \<open>evaluate_at_threshold\<close> returns for its key.
\<close>

definition memo_inv :: "(rat \<Rightarrow> error + scores) \<Rightarrow> cal_state \<Rightarrow> bool" where
  "memo_inv ev st \<longleftrightarrow>
     dict_keys (hparam_results st) = evaluated st \<and> distinct (evaluated st) \<and>
     (\<forall>x sc. dict_get (hparam_results st) x = Some sc \<longrightarrow> ev x = Inr sc)"

text \<open>
  The states in which the loop condition of line 171 is tested: the initial one, and the
  one after a pass through the body that was entered with the condition true and did not
  raise.
\<close>

inductive reach :: "(rat \<Rightarrow> error + scores) \<Rightarrow> cal_state \<Rightarrow> bool" for ev where
  reach_init: "reach ev cal_init"
| reach_step: "reach ev st \<Longrightarrow> right st - left st > 5 / 1000 \<Longrightarrow> loop_body ev st = Inr st' \<Longrightarrow> reach ev st'"

text \<open>
  After \<open>n\<close> passes the interval is one cell of the grid of width \<open>1 / 2 ^ n\<close> on
  \<open>[0, 1]\<close>.
\<close>

definition grid_inv :: "cal_state \<Rightarrow> bool" where
  "grid_inv st \<longleftrightarrow>
     (\<exists>k::nat. k < 2 ^ iterations st \<and>
        left st = of_nat k / 2 ^ iterations st \<and>
        right st = of_nat (Suc k) / 2 ^ iterations st)"

section \<open>The search as the specification words it\<close>

text \<open>
  Written from the specification, not from the code: start from \<open>left = 0\<close>, \<open>right = 1\<close>;
  while \<open>right - left > 0.005\<close>, compare F1 at the two bounds, take
  \<open>center = (left + right) / 2\<close>, and set \<open>left = center\<close> if \<open>F1(right) > F1(left)\<close>,
  else \<open>right = center\<close>. \<open>F\<close> is the F1 value as a function of the threshold; there is
  no table.
\<close>

function spec_search :: "(rat \<Rightarrow> rat) \<Rightarrow> rat \<Rightarrow> rat \<Rightarrow> rat \<times> rat" where
  "spec_search F l r =
     (if r - l > 5 / 1000
      then (let center = (l + r) / 2 in
            if F r > F l then spec_search F center r else spec_search F l center)
      else (l, r))"
  by pat_completeness auto
termination
proof (relation "measure (\<lambda>(F, l, r). nat \<lceil>400 * (r - l)\<rceil>)")
  show "wf (measure (\<lambda>(F, l, r). nat \<lceil>400 * (r - l)\<rceil>))" by simp
next
  fix F :: "rat \<Rightarrow> rat" and l r c :: rat
  assume g: "5 / 1000 < r - l" and c: "c = (l + r) / 2"
  define d where "d = r - l"
  have "\<lceil>200 * d\<rceil> + 1 = \<lceil>200 * d + 1\<rceil>" by simp
  also have "\<dots> \<le> \<lceil>400 * d\<rceil>" using g by (intro ceiling_mono) (simp add: d_def)
  finally have "\<lceil>200 * d\<rceil> < \<lceil>400 * d\<rceil>" by simp
  moreover have "0 < \<lceil>400 * d\<rceil>" using g by (simp add: d_def)
  ultimately have m: "nat \<lceil>200 * d\<rceil> < nat \<lceil>400 * d\<rceil>" by simp
  have "400 * (r - c) = 200 * d" "400 * (c - l) = 200 * d" by (simp_all add: c d_def field_simps)
  with m have "nat \<lceil>400 * (r - c)\<rceil> < nat \<lceil>400 * (r - l)\<rceil>" "nat \<lceil>400 * (c - l)\<rceil> < nat \<lceil>400 * (r - l)\<rceil>"
    by (simp_all only: d_def)
  then show "((F, c, r), (F, l, r)) \<in> measure (\<lambda>(F, l, r). nat \<lceil>400 * (r - l)\<rceil>)"
    "((F, l, c), (F, l, r)) \<in> measure (\<lambda>(F, l, r). nat \<lceil>400 * (r - l)\<rceil>)"
    by (simp_all only: in_measure prod.case)
qed

declare spec_search.simps [simp del]

section \<open>Example inputs\<close>

text \<open>
  An F1 curve with a single maximum at threshold \<open>0.3\<close>, as the bundle that
  \<open>evaluate_at_threshold\<close> would return for it.
\<close>

definition peak_scores :: "rat \<Rightarrow> scores" where
  "peak_scores t = \<lparr>precision = 1, recall = 1, f1 = 1 - \<bar>t - 3 / 10\<bar>, wrmse = 0, rpa = 1, rca = 1,
                     seconds = 0, frames = 0, infers = 0\<rparr>"

definition peak_ev :: "rat \<Rightarrow> error + scores" where
  "peak_ev t = Inr (peak_scores t)"

text \<open>
  F1 equal to 0 at every threshold: what scoring an empty hyperparameter subset gives when
  the accumulators return 0 for an empty denominator.
\<close>

definition flat_scores :: scores where
  "flat_scores = \<lparr>precision = 0, recall = 0, f1 = 0, wrmse = 0, rpa = 0, rca = 0,
                   seconds = 0, frames = 0, infers = 0\<rparr>"

text \<open>The loop states after the first pass under the two example curves.\<close>

definition peak_first :: cal_state where
  "peak_first = \<lparr>left = 0, right = 1 / 2,
     hparam_results = [(0, peak_scores 0), (1, peak_scores 1)],
     evaluated = [0, 1], iterations = 1\<rparr>"

definition flat_first :: cal_state where
  "flat_first = \<lparr>left = 0, right = 1 / 2,
     hparam_results = [(0, flat_scores), (1, flat_scores)],
     evaluated = [0, 1], iterations = 1\<rparr>"

text \<open>The loop state at the end of the run under \<open>peak_ev\<close>.\<close>

definition peak_final :: cal_state where
  "peak_final = \<lparr>left = 19 / 64, right = 77 / 256,
     hparam_results = map (\<lambda>t. (t, peak_scores t)) [0, 1, 1 / 2, 1 / 4, 3 / 8, 5 / 16, 9 / 32, 19 / 64, 39 / 128],
     evaluated = [0, 1, 1 / 2, 1 / 4, 3 / 8, 5 / 16, 9 / 32, 19 / 64, 39 / 128],
     iterations = 8\<rparr>"

text \<open>
  Collaborators for a small run: one training partition of six stems and one test stem,
  an annotation of two frames, predictions of three frames, and accumulators that count
  their updates, refuse arrays whose lengths differ from the annotation's, and return an F1
  value that is \<open>1/2\<close> at threshold 0, 1 on \<open>(0, 1/2]\<close> and 0 above. Every stem takes
  \<open>1/2\<close> second, and the totals of seconds that occur, \<open>0 + 1/2\<close> and \<open>1/2 + 1/2\<close>, are
  exact in double arithmetic, so \<open>float_add\<close> is the exact sum here.
\<close>

definition plateau_f1 :: "rat \<Rightarrow> rat" where
  "plateau_f1 t = (if t = 0 then 1 / 2 else if t \<le> 1 / 2 then 1 else 0)"

definition demo_annotation :: array2 where
  "demo_annotation = \<lparr>ncols = 2, rows = [ [100, 0] ]\<rparr>"

definition demo_pitch :: array2 where
  "demo_pitch = \<lparr>ncols = 3, rows = [ [102, 50, 60] ]\<rparr>"

definition demo_periodicity :: array2 where
  "demo_periodicity = \<lparr>ncols = 3, rows = [ [9 / 10, 1 / 10, 1 / 5] ]\<rparr>"

definition demo_collab :: "(rat \<times> nat) collab" where
  "demo_collab = \<lparr>
     partitions = (\<lambda>name. Inr [(''train'', [''a'', ''b'', ''c'', ''d'', ''e'', ''f'']), (''test'', [''t''])]),
     pitch_annotation = (\<lambda>name stem. Inr demo_annotation),
     ar_predict = (\<lambda>name stem. Inr (demo_pitch, demo_periodicity)),
     predict_from_file = (\<lambda>name stem. Inr (demo_pitch, demo_periodicity, 1 / 2, 1)),
     metrics_new = (\<lambda>t. (t, 0)),
     metrics_update = (\<lambda>m p a q.
        if ncols p = ncols a \<and> ncols q = ncols a then Inr (fst m, Suc (snd m))
        else Inl (CollaboratorError ''shape mismatch'')),
     metrics_compute = (\<lambda>m.
        if snd m = 0 then Inr (0, 0, 0, 0, 0, 0)
        else Inr (1, 1, plateau_f1 (fst m), 0, 1, 1)),
     metrics_reset = (\<lambda>m. (fst m, 0)),
     float_add = (\<lambda>x y. x + y)\<rparr>"

text \<open>An empty evaluation directory, and one holding the predictions of stems \<open>a\<close> and \<open>t\<close>.\<close>

definition empty_files :: files where
  "empty_files = \<lparr>pitch_npy = Map.empty, periodicity_npy = Map.empty, json_files = Map.empty\<rparr>"

definition demo_files :: files where
  "demo_files = np_save (np_save empty_files ''a'' demo_pitch demo_periodicity)
                  ''t'' demo_pitch demo_periodicity"

section \<open>What a stem adds to the totals\<close>

text \<open>
  What one stem adds to the three totals in windowed-batch mode (lines 115-118): the
  seconds and the number of inference calls that \<open>predict_from_file\<close> returns, and the
  \<open>shape[1]\<close> of the pitch it returns.
\<close>

definition stem_seconds :: "'m collab \<Rightarrow> string \<Rightarrow> string \<Rightarrow> rat" where
  "stem_seconds c name stem =
     (case predict_from_file c name stem of Inl e \<Rightarrow> 0 | Inr (pitch, periodicity, secs, infs) \<Rightarrow> secs)"

definition stem_frames :: "'m collab \<Rightarrow> string \<Rightarrow> string \<Rightarrow> nat" where
  "stem_frames c name stem =
     (case predict_from_file c name stem of Inl e \<Rightarrow> 0 | Inr (pitch, periodicity, secs, infs) \<Rightarrow> ncols pitch)"

definition stem_infers :: "'m collab \<Rightarrow> string \<Rightarrow> string \<Rightarrow> int" where
  "stem_infers c name stem =
     (case predict_from_file c name stem of Inl e \<Rightarrow> 0 | Inr (pitch, periodicity, secs, infs) \<Rightarrow> infs)"

section \<open>Example inputs, continued\<close>

text \<open>
  For the small run: the bundle its accumulators give at a threshold, the loop state at the
  end of its calibration, the totals before and after its prediction pass, and the loop
  state at the end of a calibration whose F1 is 0 everywhere.
\<close>

definition demo_scores :: "totals \<Rightarrow> rat \<Rightarrow> scores" where
  "demo_scores tot t = \<lparr>precision = 1, recall = 1, f1 = plateau_f1 t, wrmse = 0, rpa = 1, rca = 1,
     seconds = total_seconds tot, frames = total_frames tot, infers = total_infers tot\<rparr>"

definition demo_final :: "totals \<Rightarrow> cal_state" where
  "demo_final tot = \<lparr>left = 1 / 4, right = 65 / 256,
     hparam_results = map (\<lambda>t. (t, demo_scores tot t))
        [0, 1, 1 / 2, 1 / 4, 3 / 8, 5 / 16, 9 / 32, 17 / 64, 33 / 128],
     evaluated = [0, 1, 1 / 2, 1 / 4, 3 / 8, 5 / 16, 9 / 32, 17 / 64, 33 / 128],
     iterations = 8\<rparr>"

definition zero_totals :: totals where
  "zero_totals = \<lparr>total_seconds = 0, total_frames = 0, total_infers = 0\<rparr>"

definition demo_totals :: totals where
  "demo_totals = \<lparr>total_seconds = 1, total_frames = 6, total_infers = 2\<rparr>"

definition flat_final :: cal_state where
  "flat_final = \<lparr>left = 0, right = 1 / 256,
     hparam_results = map (\<lambda>t. (t, flat_scores))
        [0, 1, 1 / 2, 1 / 4, 1 / 8, 1 / 16, 1 / 32, 1 / 64, 1 / 128],
     evaluated = [0, 1, 1 / 2, 1 / 4, 1 / 8, 1 / 16, 1 / 32, 1 / 64, 1 / 128],
     iterations = 8\<rparr>"

section \<open>Properties\<close>

subsection \<open>Dicts and memoization\<close>


lemma dict_get_set: "dict_get (dict_set d k v) k' = (if k' = k then Some v else dict_get d k')"
  by (induction d) auto

lemma dict_get_None_iff: "dict_get d k = None \<longleftrightarrow> k \<notin> set (dict_keys d)"
  by (induction d) (auto simp: dict_keys_def split: if_splits)

lemma dict_get_key: "k \<in> set (dict_keys d) \<Longrightarrow> \<exists>v. dict_get d k = Some v"
  using dict_get_None_iff[of d k] by auto

lemma dict_keys_set_new: "dict_get d k = None \<Longrightarrow> dict_keys (dict_set d k v) = dict_keys d @ [k]"
  by (induction d) (auto simp: dict_keys_def split: if_splits)

lemma memo_inv_init: "memo_inv ev cal_init"
  by (simp add: memo_inv_def cal_init_def dict_keys_def)

lemma f1_at_memo:
  assumes "memo_inv ev st" "f1_at ev x st = Inr (v, st')"
  shows "memo_inv ev st'"
  using assms
  by (auto simp: f1_at_def memo_inv_def dict_get_set dict_keys_set_new dict_get_None_iff
      split: option.splits sum.splits if_splits)

lemma f1_at_value:
  assumes "memo_inv ev st" "f1_at ev x st = Inr (v, st')"
  shows "\<exists>sc. ev x = Inr sc \<and> v = f1 sc \<and> dict_get (hparam_results st') x = Some sc"
  using assms
  by (auto simp: f1_at_def memo_inv_def dict_get_set split: option.splits sum.splits)

lemma f1_at_keeps:
  assumes "f1_at ev x st = Inr (v, st')" "dict_get (hparam_results st) y = Some sc"
  shows "dict_get (hparam_results st') y = Some sc"
  using assms
  by (auto simp: f1_at_def dict_get_set split: option.splits sum.splits)

lemma f1_at_total:
  assumes "\<And>t. ev t = Inr (sc t)"
  shows "\<exists>v st'. f1_at ev x st = Inr (v, st')"
  using assms by (auto simp: f1_at_def split: option.splits)

lemma loop_body_cases:
  assumes "loop_body ev st = Inr st'"
  obtains lf st1 rf st2 where
    "f1_at ev (left st) st = Inr (lf, st1)" "f1_at ev (right st) st1 = Inr (rf, st2)"
    "st' = (if rf > lf then st2\<lparr>left := (left st + right st) / 2, iterations := Suc (iterations st2)\<rparr>
            else st2\<lparr>right := (left st + right st) / 2, iterations := Suc (iterations st2)\<rparr>)"
  using assms by (auto simp: loop_body_def Let_def split: sum.splits if_splits)

lemma loop_body_memo:
  assumes "memo_inv ev st" "loop_body ev st = Inr st'"
  shows "memo_inv ev st'"
proof -
  from assms(2) obtain lf st1 rf st2 where
    a: "f1_at ev (left st) st = Inr (lf, st1)" and b: "f1_at ev (right st) st1 = Inr (rf, st2)" and
    c: "st' = (if rf > lf then st2\<lparr>left := (left st + right st) / 2, iterations := Suc (iterations st2)\<rparr>
            else st2\<lparr>right := (left st + right st) / 2, iterations := Suc (iterations st2)\<rparr>)"
    by (rule loop_body_cases)
  have "memo_inv ev st2" using f1_at_memo[OF f1_at_memo[OF assms(1) a] b] .
  then show ?thesis by (simp add: c memo_inv_def)
qed

lemma reach_memo: "reach ev st \<Longrightarrow> memo_inv ev st"
  by (induction rule: reach.induct) (auto intro: memo_inv_init loop_body_memo)

subsection \<open>The interval: halving, grid points, number of passes\<close>


lemma grid_inv_init: "grid_inv cal_init"
  by (simp add: grid_inv_def cal_init_def)

lemma grid_inv_width: "grid_inv st \<Longrightarrow> right st - left st = 1 / 2 ^ iterations st"
  by (auto simp: grid_inv_def diff_divide_distrib[symmetric] simp del: of_nat_Suc)

lemma loop_body_grid:
  assumes "grid_inv st" "loop_body ev st = Inr st'"
  shows "grid_inv st'"
proof -
  from assms(2) obtain lf st1 rf st2 where
    a: "f1_at ev (left st) st = Inr (lf, st1)" and b: "f1_at ev (right st) st1 = Inr (rf, st2)" and
    c: "st' = (if rf > lf then st2\<lparr>left := (left st + right st) / 2, iterations := Suc (iterations st2)\<rparr>
            else st2\<lparr>right := (left st + right st) / 2, iterations := Suc (iterations st2)\<rparr>)"
    by (rule loop_body_cases)
  from f1_at_bounds[OF a] f1_at_bounds[OF b]
  have eq: "left st2 = left st" "right st2 = right st" "iterations st2 = iterations st" by simp_all
  from assms(1) obtain k :: nat where k: "k < 2 ^ iterations st"
    "left st = of_nat k / 2 ^ iterations st" "right st = of_nat (Suc k) / 2 ^ iterations st"
    by (auto simp: grid_inv_def)
  have mid: "(left st + right st) / 2 = of_nat (Suc (2 * k)) / 2 ^ Suc (iterations st)"
    by (simp add: k add_divide_distrib)
  have l2: "left st = of_nat (2 * k) / 2 ^ Suc (iterations st)" by (simp add: k)
  have r2: "right st = of_nat (Suc (Suc (2 * k))) / 2 ^ Suc (iterations st)" by (simp add: k field_simps)
  show ?thesis
  proof (cases "rf > lf")
    case True
    have bound: "Suc (2 * k) < 2 ^ Suc (iterations st)" using k(1) by simp
    have i: "iterations st' = Suc (iterations st)" using c True eq by simp
    have l: "left st' = of_nat (Suc (2 * k)) / 2 ^ Suc (iterations st)"
      using c True mid by simp
    have r: "right st' = of_nat (Suc (Suc (2 * k))) / 2 ^ Suc (iterations st)"
      using c True eq(2) r2 by simp
    show ?thesis unfolding grid_inv_def i l r using bound by blast
  next
    case False
    have bound: "2 * k < 2 ^ Suc (iterations st)" using k(1) by simp
    have i: "iterations st' = Suc (iterations st)" using c False eq by simp
    have l: "left st' = of_nat (2 * k) / 2 ^ Suc (iterations st)"
      using c False eq(1) l2 by simp
    have r: "right st' = of_nat (Suc (2 * k)) / 2 ^ Suc (iterations st)"
      using c False mid by simp
    show ?thesis unfolding grid_inv_def i l r using bound by blast
  qed
qed

lemma reach_grid: "reach ev st \<Longrightarrow> grid_inv st"
  by (induction rule: reach.induct) (auto intro: grid_inv_init loop_body_grid)

lemma loop_body_iterations: "loop_body ev st = Inr st' \<Longrightarrow> iterations st' = Suc (iterations st)"
  by (erule loop_body_cases) (auto dest!: f1_at_bounds split: if_splits)

lemma guard_iff:
  assumes "grid_inv st"
  shows "right st - left st > 5 / 1000 \<longleftrightarrow> iterations st < 8"
proof -
  have w: "right st - left st = 1 / 2 ^ iterations st" by (rule grid_inv_width[OF assms])
  have "(5 / 1000 < (1::rat) / 2 ^ iterations st) \<longleftrightarrow> (2::rat) ^ iterations st < 200"
    by (simp add: field_simps)
  also have "\<dots> \<longleftrightarrow> (2::nat) ^ iterations st < 200"
    by (simp only: of_nat_less_iff[symmetric, where 'a=rat] of_nat_power of_nat_numeral)
  also have "\<dots> \<longleftrightarrow> iterations st < 8"
  proof (rule iffI)
    assume "(2::nat) ^ iterations st < 200"
    then have "(2::nat) ^ iterations st < 2 ^ 8" by simp
    then show "iterations st < 8" by (simp only: power_strict_increasing_iff) 
  next
    assume "iterations st < 8"
    then have "iterations st \<le> 7" by simp
    then have "(2::nat) ^ iterations st \<le> 2 ^ 7" by (simp only: power_increasing_iff) 
    then show "(2::nat) ^ iterations st < 200" by simp
  qed
  finally show ?thesis by (simp only: w)
qed

lemma reach_iterations_le: "reach ev st \<Longrightarrow> iterations st \<le> 8"
proof (induction rule: reach.induct)
  case reach_init
  then show ?case by (simp add: cal_init_def)
next
  case (reach_step st st')
  from guard_iff[OF reach_grid[OF reach_step(1)]] reach_step(2) have "iterations st < 8" by simp
  with loop_body_iterations[OF reach_step(3)] show ?case by simp
qed

text \<open>
  The literal \<open>0.005\<close> is the double \<open>5764607523034235 / 2 ^ 60\<close>. On every width the
  loop reaches, comparing with it and comparing with \<open>5 / 1000\<close> give the same answer.
\<close>

lemma guard_double:
  assumes "grid_inv st"
  shows "right st - left st > 5764607523034235 / 2 ^ 60 \<longleftrightarrow> right st - left st > 5 / 1000"
proof -
  have w: "right st - left st = 1 / 2 ^ iterations st" by (rule grid_inv_width[OF assms])
  have "(5764607523034235 / 2 ^ 60 < (1::rat) / 2 ^ iterations st) \<longleftrightarrow> iterations st < 8"
  proof (cases "iterations st < 8")
    case True
    then have "iterations st \<le> 7" by simp
    then have "(2::nat) ^ iterations st \<le> 2 ^ 7" by (simp only: power_increasing_iff)
    then have "(of_nat ((2::nat) ^ iterations st) :: rat) \<le> of_nat (2 ^ 7)" by (simp only: of_nat_le_iff)
    then have "(2::rat) ^ iterations st \<le> 128" by simp
    then have "5764607523034235 * (2::rat) ^ iterations st < 2 ^ 60" by simp
    with True show ?thesis by (simp add: field_simps)
  next
    case False
    then have "8 \<le> iterations st" by simp
    then have "(2::nat) ^ 8 \<le> 2 ^ iterations st" by (simp only: power_increasing_iff)
    then have "(of_nat ((2::nat) ^ 8) :: rat) \<le> of_nat (2 ^ iterations st)" by (simp only: of_nat_le_iff)
    then have "256 \<le> (2::rat) ^ iterations st" by simp
    then have "\<not> 5764607523034235 * (2::rat) ^ iterations st < 2 ^ 60" by simp
    with False show ?thesis by (simp add: field_simps)
  qed
  with guard_iff[OF assms] show ?thesis by (simp only: w)
qed

lemma calibrate_loop_reach:
  "reach ev st \<Longrightarrow> calibrate_loop ev st = Inr fin \<Longrightarrow> reach ev fin \<and> \<not> right fin - left fin > 5 / 1000"
proof (induction ev st rule: calibrate_loop.induct)
  case (1 ev st)
  show ?case
  proof (cases "right st - left st > 5 / 1000")
    case True
    with "1.prems"(2) obtain st' where b: "loop_body ev st = Inr st'" and r: "calibrate_loop ev st' = Inr fin"
      by (subst (asm) calibrate_loop.simps) (auto split: sum.splits)
    from "1.IH"[OF True b reach_step[OF "1.prems"(1) True b] r] show ?thesis .
  next
    case False
    with "1.prems" show ?thesis by (subst (asm) calibrate_loop.simps) auto
  qed
qed

lemma calibrate_reach:
  assumes "calibrate ev = Inr fin"
  shows "reach ev fin" "iterations fin = 8"
proof -
  from calibrate_loop_reach[OF reach_init assms[unfolded calibrate_def]]
  have r: "reach ev fin" and g: "\<not> right fin - left fin > 5 / 1000" by simp_all
  show "reach ev fin" by (rule r)
  from g guard_iff[OF reach_grid[OF r]] reach_iterations_le[OF r] show "iterations fin = 8" by simp
qed

lemma loop_body_total:
  assumes "\<And>t. ev t = Inr (sc t)"
  shows "\<exists>st'. loop_body ev st = Inr st'"
proof -
  from f1_at_total[of ev sc, OF assms] obtain lf st1 where a: "f1_at ev (left st) st = Inr (lf, st1)" by blast
  from f1_at_total[of ev sc, OF assms] obtain rf st2 where b: "f1_at ev (right st) st1 = Inr (rf, st2)" by blast
  show ?thesis by (simp add: loop_body_def a b Let_def)
qed

lemma calibrate_loop_total:
  assumes "\<And>t. ev t = Inr (sc t)"
  shows "\<exists>fin. calibrate_loop ev st = Inr fin"
  using assms
proof (induction ev st rule: calibrate_loop.induct)
  case (1 ev st)
  show ?case
  proof (cases "right st - left st > 5 / 1000")
    case True
    from loop_body_total[of ev sc st] "1.prems" obtain st' where b: "loop_body ev st = Inr st'" by blast
    from "1.IH"[OF True b "1.prems"] obtain fin where "calibrate_loop ev st' = Inr fin" by blast
    with True b show ?thesis by (subst calibrate_loop.simps) simp
  next
    case False
    then show ?thesis by (subst calibrate_loop.simps) simp
  qed
qed

subsection \<open>Number of passes\<close>

lemma ceil_log: "\<lceil>log 2 (1 / (5 / 1000))\<rceil> = (8::int)"
proof (rule ceiling_unique)
  have "(2::real) powr 7 < 200" by (simp add: powr_numeral)
  then show "of_int 8 - 1 < log 2 (1 / (5 / 1000))" by (simp add: less_log_iff)
  have "(200::real) \<le> 2 powr 8" by (simp add: powr_numeral)
  then show "log 2 (1 / (5 / 1000)) \<le> of_int 8" by (simp add: log_le_iff)
qed

lemma peak_run:
  "calibrate peak_ev = Inr \<lparr>left = 19 / 64, right = 77 / 256,
     hparam_results = map (\<lambda>t. (t, peak_scores t)) [0, 1, 1 / 2, 1 / 4, 3 / 8, 5 / 16, 9 / 32, 19 / 64, 39 / 128],
     evaluated = [0, 1, 1 / 2, 1 / 4, 3 / 8, 5 / 16, 9 / 32, 19 / 64, 39 / 128],
     iterations = 8\<rparr>"
  by (simp add: calibrate_def cal_init_def calibrate_loop.simps loop_body_def f1_at_def
      peak_ev_def peak_scores_def Let_def)

text \<open>
  Claim C5. Whatever bundles \<open>evaluate_at_threshold\<close> returns (\<open>sc\<close> is arbitrary), the
  calibration loop terminates, and it makes exactly 8 passes, which is
  \<open>ceil(log2(1/0.005))\<close>: the width \<open>right - left\<close> starts at 1, is halved by every pass
  and is \<open>1/256\<close> at the end.
\<close>

theorem calibration_iterations:
  "\<exists>fin. calibrate (\<lambda>t. Inr (sc t)) = Inr fin \<and> iterations fin = 8 \<and>
         right fin - left fin = 1 / 2 ^ 8 \<and> \<lceil>log 2 (1 / (5 / 1000))\<rceil> = (8::int)"
proof -
  from calibrate_loop_total[of "\<lambda>t. Inr (sc t)" sc cal_init]
  obtain fin where f: "calibrate (\<lambda>t. Inr (sc t)) = Inr fin" by (auto simp: calibrate_def)
  have i: "iterations fin = 8" by (rule calibrate_reach(2)[OF f])
  have "right fin - left fin = 1 / 2 ^ iterations fin"
    by (rule grid_inv_width[OF reach_grid[OF calibrate_reach(1)[OF f]]])
  then have w: "right fin - left fin = 1 / 2 ^ 8" by (simp only: i)
  from f i w ceil_log show ?thesis by blast
qed

theorem calibration_iterations_witness:
  "\<exists>fin. calibrate (\<lambda>t. Inr (peak_scores t)) = Inr fin \<and> iterations fin = 8 \<and>
         right fin - left fin = 1 / 2 ^ 8 \<and> \<lceil>log 2 (1 / (5 / 1000))\<rceil> = (8::int)"
  by (rule calibration_iterations)

subsection \<open>The loop against the search of the specification\<close>


lemma loop_body_step:
  assumes m: "memo_inv (\<lambda>t. Inr (sc t)) st" and b: "loop_body (\<lambda>t. Inr (sc t)) st = Inr st'"
  shows "left st' = (if f1 (sc (right st)) > f1 (sc (left st)) then (left st + right st) / 2 else left st)"
    and "right st' = (if f1 (sc (right st)) > f1 (sc (left st)) then right st else (left st + right st) / 2)"
proof -
  let ?ev = "\<lambda>t. Inr (sc t)"
  from b obtain lf st1 rf st2 where
    a1: "f1_at ?ev (left st) st = Inr (lf, st1)" and a2: "f1_at ?ev (right st) st1 = Inr (rf, st2)" and
    c: "st' = (if rf > lf then st2\<lparr>left := (left st + right st) / 2, iterations := Suc (iterations st2)\<rparr>
            else st2\<lparr>right := (left st + right st) / 2, iterations := Suc (iterations st2)\<rparr>)"
    by (rule loop_body_cases)
  from f1_at_value[OF m a1] have lf: "lf = f1 (sc (left st))" by auto
  from f1_at_value[OF f1_at_memo[OF m a1] a2] have rf: "rf = f1 (sc (right st))" by auto
  from f1_at_bounds[OF a1] f1_at_bounds[OF a2]
  have eq: "left st2 = left st" "right st2 = right st" by simp_all
  show "left st' = (if f1 (sc (right st)) > f1 (sc (left st)) then (left st + right st) / 2 else left st)"
    by (simp add: c lf rf eq)
  show "right st' = (if f1 (sc (right st)) > f1 (sc (left st)) then right st else (left st + right st) / 2)"
    by (simp add: c lf rf eq)
qed

lemma calibrate_loop_refines:
  assumes "ev = (\<lambda>t. Inr (sc t))" "memo_inv ev st"
  shows "\<exists>fin. calibrate_loop ev st = Inr fin \<and>
               (left fin, right fin) = spec_search (\<lambda>t. f1 (sc t)) (left st) (right st)"
  using assms
proof (induction ev st rule: calibrate_loop.induct)
  case (1 ev st)
  show ?case
  proof (cases "right st - left st > 5 / 1000")
    case True
    from loop_body_total[of ev sc st] "1.prems"(1) obtain st' where b: "loop_body ev st = Inr st'" by blast
    have m': "memo_inv ev st'" by (rule loop_body_memo[OF "1.prems"(2) b])
    from "1.IH"[OF True b "1.prems"(1) m'] obtain fin where
      f: "calibrate_loop ev st' = Inr fin" and
      s: "(left fin, right fin) = spec_search (\<lambda>t. f1 (sc t)) (left st') (right st')" by blast
    from loop_body_step[of sc st st'] "1.prems" b
    have l: "left st' = (if f1 (sc (right st)) > f1 (sc (left st)) then (left st + right st) / 2 else left st)"
      and r: "right st' = (if f1 (sc (right st)) > f1 (sc (left st)) then right st else (left st + right st) / 2)"
      by simp_all
    have "spec_search (\<lambda>t. f1 (sc t)) (left st) (right st) = spec_search (\<lambda>t. f1 (sc t)) (left st') (right st')"
      using True by (subst spec_search.simps) (simp add: l r Let_def)
    moreover have "calibrate_loop ev st = Inr fin"
      using True b f by (subst calibrate_loop.simps) simp
    ultimately show ?thesis using s by simp
  next
    case False
    then show ?thesis
      by (subst calibrate_loop.simps, subst spec_search.simps) simp
  qed
qed

lemma spec_search_peak: "spec_search (\<lambda>t. f1 (peak_scores t)) 0 1 = (19 / 64, 77 / 256)"
  by (simp add: spec_search.simps peak_scores_def Let_def)

subsection \<open>Passes of the loop\<close>

lemma peak_first_body: "loop_body (\<lambda>t. Inr (peak_scores t)) cal_init = Inr peak_first"
  by (simp add: loop_body_def f1_at_def cal_init_def peak_first_def peak_scores_def Let_def)

lemma peak_first_reach: "reach (\<lambda>t. Inr (peak_scores t)) peak_first"
  by (rule reach_step[OF reach_init _ peak_first_body]) (simp add: cal_init_def)

lemma flat_first_body: "loop_body (\<lambda>t. Inr flat_scores) cal_init = Inr flat_first"
  by (simp add: loop_body_def f1_at_def cal_init_def flat_first_def flat_scores_def Let_def)

lemma flat_first_reach: "reach (\<lambda>t. Inr flat_scores) flat_first"
  by (rule reach_step[OF reach_init _ flat_first_body]) (simp add: cal_init_def)

text \<open>
  Claim C1. The loop starts from \<open>left = 0\<close>, \<open>right = 1\<close> and repeats exactly while
  \<open>right - left > 0.005\<close>; in every pass it takes the F1 values at \<open>left\<close> and \<open>right\<close>
  (computed or read back from the table, which gives the same value), computes
  \<open>center = (left + right) / 2\<close>, and sets \<open>left = center\<close> when \<open>F1(right) > F1(left)\<close> and
  \<open>right = center\<close> otherwise. Stated for every state \<open>st\<close> in which the loop condition is
  tested, and for the whole loop as equality with \<open>spec_search\<close>, the search written from
  the words of the specification.
\<close>

theorem calibration_refines_search:
  assumes "reach (\<lambda>t. Inr (sc t)) st"
  shows "(\<exists>st'. loop_body (\<lambda>t. Inr (sc t)) st = Inr st' \<and>
            left st' = (if f1 (sc (right st)) > f1 (sc (left st)) then (left st + right st) / 2 else left st) \<and>
            right st' = (if f1 (sc (right st)) > f1 (sc (left st)) then right st else (left st + right st) / 2)) \<and>
         (\<exists>fin. calibrate (\<lambda>t. Inr (sc t)) = Inr fin \<and>
            (left fin, right fin) = spec_search (\<lambda>t. f1 (sc t)) 0 1)"
proof -
  from loop_body_total[of "\<lambda>t. Inr (sc t)" sc st]
  obtain st' where b: "loop_body (\<lambda>t. Inr (sc t)) st = Inr st'" by blast
  note s = loop_body_step[OF reach_memo[OF assms] b]
  from calibrate_loop_refines[of "\<lambda>t. Inr (sc t)" sc cal_init, OF refl memo_inv_init]
  have "\<exists>fin. calibrate (\<lambda>t. Inr (sc t)) = Inr fin \<and>
            (left fin, right fin) = spec_search (\<lambda>t. f1 (sc t)) 0 1"
    by (simp add: calibrate_def cal_init_def)
  with b s show ?thesis by blast
qed

theorem calibration_refines_search_witness:
  "(\<exists>st'. loop_body (\<lambda>t. Inr (peak_scores t)) peak_first = Inr st' \<and>
            left st' = (if f1 (peak_scores (right peak_first)) > f1 (peak_scores (left peak_first))
                        then (left peak_first + right peak_first) / 2 else left peak_first) \<and>
            right st' = (if f1 (peak_scores (right peak_first)) > f1 (peak_scores (left peak_first))
                         then right peak_first else (left peak_first + right peak_first) / 2)) \<and>
         (\<exists>fin. calibrate (\<lambda>t. Inr (peak_scores t)) = Inr fin \<and>
            (left fin, right fin) = spec_search (\<lambda>t. f1 (peak_scores t)) 0 1)"
  by (rule calibration_refines_search[OF peak_first_reach])

text \<open>
  Claim C2 as stated fails. With F1 equal at both bounds (here 0 everywhere) the first
  pass leaves \<open>left\<close> at 0 and moves \<open>right\<close> from 1 to \<open>1/2\<close>: the bound that moves to the
  center is \<open>right\<close>, not \<open>left\<close>.
\<close>

theorem tie_moves_left_counterexample:
  "f1 flat_scores = f1 flat_scores \<and>
   loop_body (\<lambda>t. Inr flat_scores) cal_init = Inr flat_first \<and>
   left flat_first = left cal_init \<and>
   left flat_first \<noteq> (left cal_init + right cal_init) / 2 \<and>
   right flat_first \<noteq> right cal_init"
  using flat_first_body by (simp add: flat_first_def cal_init_def)

text \<open>
  Claim C2, amended. In every pass in which F1 at \<open>left\<close> equals F1 at \<open>right\<close>, the
  comparison \<open>right_f1 > left_f1\<close> is false, so \<open>left\<close> stays and \<open>right\<close> moves to the center:
  the interval shrinks from the right.
\<close>

theorem tie_moves_right:
  assumes "reach (\<lambda>t. Inr (sc t)) st" "f1 (sc (right st)) = f1 (sc (left st))"
  shows "\<exists>st'. loop_body (\<lambda>t. Inr (sc t)) st = Inr st' \<and>
           left st' = left st \<and> right st' = (left st + right st) / 2"
proof -
  from loop_body_total[of "\<lambda>t. Inr (sc t)" sc st]
  obtain st' where b: "loop_body (\<lambda>t. Inr (sc t)) st = Inr st'" by blast
  from loop_body_step[OF reach_memo[OF assms(1)] b] assms(2)
  have "left st' = left st" "right st' = (left st + right st) / 2" by simp_all
  with b show ?thesis by blast
qed

theorem tie_moves_right_witness:
  "\<exists>st'. loop_body (\<lambda>t. Inr flat_scores) flat_first = Inr st' \<and>
           left st' = left flat_first \<and> right st' = (left flat_first + right flat_first) / 2"
  by (rule tie_moves_right[OF flat_first_reach refl])

lemma f1_at_stored:
  "f1_at ev x st = Inr (v, st') \<Longrightarrow> \<exists>sc. dict_get (hparam_results st') x = Some sc"
  by (auto simp: f1_at_def dict_get_set split: option.splits sum.splits)

lemma loop_body_stores:
  assumes "loop_body ev st = Inr st'"
  shows "left st \<in> set (dict_keys (hparam_results st'))" "right st \<in> set (dict_keys (hparam_results st'))"
    "set (dict_keys (hparam_results st)) \<subseteq> set (dict_keys (hparam_results st'))"
proof -
  from assms obtain lf st1 rf st2 where
    a: "f1_at ev (left st) st = Inr (lf, st1)" and b: "f1_at ev (right st) st1 = Inr (rf, st2)" and
    c: "st' = (if rf > lf then st2\<lparr>left := (left st + right st) / 2, iterations := Suc (iterations st2)\<rparr>
            else st2\<lparr>right := (left st + right st) / 2, iterations := Suc (iterations st2)\<rparr>)"
    by (rule loop_body_cases)
  have t: "hparam_results st' = hparam_results st2" by (simp add: c)
  from f1_at_stored[OF a] obtain sc where "dict_get (hparam_results st1) (left st) = Some sc" by blast
  from f1_at_keeps[OF b this] show "left st \<in> set (dict_keys (hparam_results st'))"
    using dict_get_None_iff[of "hparam_results st2" "left st"] by (simp add: t)
  from f1_at_stored[OF b] show "right st \<in> set (dict_keys (hparam_results st'))"
    using dict_get_None_iff[of "hparam_results st2" "right st"] by (auto simp add: t)
  show "set (dict_keys (hparam_results st)) \<subseteq> set (dict_keys (hparam_results st'))"
  proof
    fix y assume "y \<in> set (dict_keys (hparam_results st))"
    then obtain v where "dict_get (hparam_results st) y = Some v" using dict_get_key by fastforce
    from f1_at_keeps[OF b f1_at_keeps[OF a this]]
    show "y \<in> set (dict_keys (hparam_results st'))"
      using dict_get_None_iff[of "hparam_results st2" y] by (simp add: t)
  qed
qed

lemma reach_ends_stored:
  "reach ev st \<Longrightarrow>
     (iterations st = 0 \<longrightarrow> left st = 0 \<and> right st = 1) \<and>
     (0 < iterations st \<longrightarrow> 0 \<in> set (dict_keys (hparam_results st)) \<and> 1 \<in> set (dict_keys (hparam_results st)))"
proof (induction rule: reach.induct)
  case reach_init
  then show ?case by (simp add: cal_init_def)
next
  case (reach_step st st')
  note s = loop_body_stores[OF reach_step(3)]
  have i: "iterations st' = Suc (iterations st)" by (rule loop_body_iterations[OF reach_step(3)])
  show ?case
  proof (cases "iterations st = 0")
    case True
    with reach_step.IH s(1,2) i show ?thesis by simp
  next
    case False
    with reach_step.IH s(3) i show ?thesis by auto
  qed
qed

lemma py_max_mem: "py_max key xs = Inr b \<Longrightarrow> b \<in> set xs"
proof -
  have "foldl (\<lambda>b y. if key y > key b then y else b) x ys \<in> set (x # ys)" for x ys
    by (induction ys arbitrary: x) (auto split: if_splits)
  then show "py_max key xs = Inr b \<Longrightarrow> b \<in> set xs" by (cases xs) auto
qed

lemma py_max_defined: "xs \<noteq> [] \<Longrightarrow> \<exists>b. py_max key xs = Inr b"
  by (cases xs) auto

text \<open>
  Claim C10. In every state in which the loop condition is tested,
  \<open>0 \<le> left < right \<le> 1\<close>, and \<open>left\<close> and \<open>right\<close> are the dyadic rationals \<open>k / 2 ^ n\<close>
  and \<open>(k + 1) / 2 ^ n\<close> with \<open>n\<close> the number of passes made, at most 8. After the
  first pass the table has entries for the thresholds 0 and 1, so the table that
  \<open>best_thresh\<close> is selected from when the loop has ended is not empty and \<open>max\<close> returns
  one of its keys.
\<close>

theorem calibration_invariant:
  assumes "reach ev st"
  shows "0 \<le> left st \<and> left st < right st \<and> right st \<le> 1 \<and>
     (\<exists>k::nat. left st = of_nat k / 2 ^ iterations st \<and> right st = of_nat (Suc k) / 2 ^ iterations st) \<and>
     iterations st \<le> 8 \<and>
     (0 < iterations st \<longrightarrow>
        0 \<in> set (dict_keys (hparam_results st)) \<and> 1 \<in> set (dict_keys (hparam_results st))) \<and>
     (calibrate ev = Inr st \<longrightarrow>
        0 < iterations st \<and> hparam_results st \<noteq> [] \<and>
        (\<exists>b. best_thresh (hparam_results st) = Inr b \<and> b \<in> set (dict_keys (hparam_results st))))"
proof -
  from reach_grid[OF assms] obtain k :: nat where k: "k < 2 ^ iterations st"
    "left st = of_nat k / 2 ^ iterations st" "right st = of_nat (Suc k) / 2 ^ iterations st"
    by (auto simp: grid_inv_def)
  have l0: "0 \<le> left st" by (simp add: k)
  have "left st < right st" using grid_inv_width[OF reach_grid[OF assms]] 
    by (smt (verit) diff_gt_0_iff_gt zero_less_divide_1_iff zero_less_numeral zero_less_power)
  moreover have "right st \<le> 1"
  proof -
    have "Suc k \<le> 2 ^ iterations st" using k(1) by simp
    then have "(of_nat (Suc k) :: rat) \<le> of_nat (2 ^ iterations st)" by (simp only: of_nat_le_iff)
    then show ?thesis by (simp add: k(3))
  qed
  moreover note l0 reach_iterations_le[OF assms] reach_ends_stored[OF assms]
  moreover have "calibrate ev = Inr st \<longrightarrow>
        0 < iterations st \<and> hparam_results st \<noteq> [] \<and>
        (\<exists>b. best_thresh (hparam_results st) = Inr b \<and> b \<in> set (dict_keys (hparam_results st)))"
  proof
    assume c: "calibrate ev = Inr st"
    from calibrate_reach(2)[OF c] have i: "0 < iterations st" by simp
    with reach_ends_stored[OF assms] have m: "0 \<in> set (dict_keys (hparam_results st))" by simp
    then have ne: "dict_keys (hparam_results st) \<noteq> []" by auto
    then have ne': "hparam_results st \<noteq> []" by (auto simp: dict_keys_def)
    from py_max_defined[OF ne] obtain b where b: "best_thresh (hparam_results st) = Inr b"
      by (auto simp: best_thresh_def)
    from py_max_mem[OF b[unfolded best_thresh_def]] i ne' b
    show "0 < iterations st \<and> hparam_results st \<noteq> [] \<and>
        (\<exists>b. best_thresh (hparam_results st) = Inr b \<and> b \<in> set (dict_keys (hparam_results st)))"
      by blast
  qed
  ultimately show ?thesis using k(2,3) by blast
qed

text \<open>
  Claim C4. In every state in which the loop condition is tested, no threshold occurs twice
  in the log of the calls of \<open>evaluate_at_threshold\<close>, the keys of the table are exactly the
  logged thresholds, and asking for the F1 value of a logged threshold returns the stored
  value and leaves the state, and with it the log, unchanged: no further call is made.
\<close>

theorem no_threshold_scored_twice:
  assumes "reach ev st"
  shows "distinct (evaluated st) \<and> dict_keys (hparam_results st) = evaluated st \<and>
     (\<forall>x \<in> set (evaluated st). \<exists>sc. ev x = Inr sc \<and> f1_at ev x st = Inr (f1 sc, st))"
proof -
  from reach_memo[OF assms] have m: "dict_keys (hparam_results st) = evaluated st"
    "distinct (evaluated st)" "\<And>x sc. dict_get (hparam_results st) x = Some sc \<Longrightarrow> ev x = Inr sc"
    by (auto simp: memo_inv_def)
  have "\<exists>sc. ev x = Inr sc \<and> f1_at ev x st = Inr (f1 sc, st)" if "x \<in> set (evaluated st)" for x
  proof -
    from that m(1) dict_get_key[of x "hparam_results st"] obtain sc where
      g: "dict_get (hparam_results st) x = Some sc" by auto
    from m(3)[OF g] g show ?thesis by (auto simp: f1_at_def)
  qed
  with m(1,2) show ?thesis by blast
qed

lemma peak_final_run: "calibrate peak_ev = Inr peak_final"
  using peak_run by (simp add: peak_final_def)

lemma peak_final_reach: "reach peak_ev peak_final"
  by (rule calibrate_reach(1)[OF peak_final_run])

theorem calibration_invariant_witness:
  "reach peak_ev peak_final \<and> calibrate peak_ev = Inr peak_final \<and>
   0 \<le> left peak_final \<and> left peak_final < right peak_final \<and> right peak_final \<le> 1 \<and>
   (\<exists>k::nat. left peak_final = of_nat k / 2 ^ iterations peak_final \<and>
      right peak_final = of_nat (Suc k) / 2 ^ iterations peak_final) \<and>
   iterations peak_final \<le> 8 \<and>
   0 \<in> set (dict_keys (hparam_results peak_final)) \<and>
   1 \<in> set (dict_keys (hparam_results peak_final)) \<and>
   hparam_results peak_final \<noteq> [] \<and>
   (\<exists>b. best_thresh (hparam_results peak_final) = Inr b \<and>
      b \<in> set (dict_keys (hparam_results peak_final)))"
proof -
  note t = calibration_invariant[OF peak_final_reach]
  have i: "0 < iterations peak_final" by (simp add: peak_final_def)
  from t i peak_final_run peak_final_reach show ?thesis by blast
qed

theorem no_threshold_scored_twice_witness:
  "reach peak_ev peak_final \<and> 1 / 2 \<in> set (evaluated peak_final) \<and>
   distinct (evaluated peak_final) \<and>
   dict_keys (hparam_results peak_final) = evaluated peak_final \<and>
   (\<exists>sc. peak_ev (1 / 2) = Inr sc \<and> f1_at peak_ev (1 / 2) peak_final = Inr (f1 sc, peak_final))"
proof -
  note t = no_threshold_scored_twice[OF peak_final_reach]
  have m: "1 / 2 \<in> set (evaluated peak_final)" by (simp add: peak_final_def)
  from t m peak_final_reach show ?thesis by blast
qed

subsection \<open>Truncation\<close>

text \<open>
  Claim C6 as stated fails. For a dataset other than \<open>PTDB\<close>, a prediction of three frames
  against an annotation of two frames reaches the metric updates with all three frames:
  nothing is truncated.
\<close>

theorem truncation_every_dataset_counterexample:
  "load_stem demo_collab ''MDB'' demo_files ''a'' = Inr (demo_pitch, demo_annotation, demo_periodicity) \<and>
   ncols demo_pitch = 3 \<and> ncols demo_annotation = 2 \<and> ncols demo_periodicity = 3"
  by (simp add: load_stem_def demo_collab_def demo_files_def np_save_def empty_files_def
      demo_pitch_def demo_annotation_def demo_periodicity_def)

text \<open>
  Claim C6, amended. For every stem scored, by \<open>evaluate_at_threshold\<close> and by
  \<open>evaluate_per_stem\<close> alike: when the dataset is \<open>PTDB\<close> and the loaded pitch has more
  columns than the reference annotation, the pitch and the periodicity are both cut to the
  annotation's number of columns before the metric updates; in every other case (another
  dataset, or a pitch that is not longer) both are passed on as loaded. The annotation is
  passed on as loaded in all cases.
\<close>

theorem truncation_rule:
  assumes "pitch_annotation c name stem = Inr a" "pitch_npy fs stem = Some p"
    "periodicity_npy fs stem = Some q"
  shows "\<exists>p' q'. load_stem c name fs stem = Inr (p', a, q') \<and>
     (if name = ''PTDB'' \<and> ncols p > ncols a
      then ncols p' = ncols a \<and> rows p' = map (take (ncols a)) (rows p) \<and>
           ncols q' = min (ncols a) (ncols q) \<and> rows q' = map (take (ncols a)) (rows q)
      else p' = p \<and> q' = q) \<and>
     score_stems c name fs (stem # stems) m =
       (case metrics_update c m p' a q' of
          Inl e \<Rightarrow> Inl e
        | Inr m' \<Rightarrow> score_stems c name fs stems m') \<and>
     per_stem_loop c name fs (stem # stems) m res =
       (case metrics_update c m p' a q' of
          Inl e \<Rightarrow> Inl e
        | Inr m' \<Rightarrow>
            (case metrics_compute c m' of
               Inl e \<Rightarrow> Inl e
             | Inr (pv, rv, fv, wv, rpv, rcv) \<Rightarrow>
                 per_stem_loop c name fs stems (metrics_reset c m')
                   (dict_set res stem
                      \<lparr>precision = pv, recall = rv, f1 = fv, wrmse = wv, rpa = rpv, rca = rcv\<rparr>)))"
  using assms by (auto simp: load_stem_def slice_cols_def)

theorem truncation_rule_witness:
  "\<exists>p' q'. load_stem demo_collab ''PTDB'' demo_files ''a'' = Inr (p', demo_annotation, q') \<and>
     (if ''PTDB'' = ''PTDB'' \<and> ncols demo_pitch > ncols demo_annotation
      then ncols p' = ncols demo_annotation \<and>
           rows p' = map (take (ncols demo_annotation)) (rows demo_pitch) \<and>
           ncols q' = min (ncols demo_annotation) (ncols demo_periodicity) \<and>
           rows q' = map (take (ncols demo_annotation)) (rows demo_periodicity)
      else p' = demo_pitch \<and> q' = demo_periodicity) \<and>
     score_stems demo_collab ''PTDB'' demo_files [''a''] (0, 0) =
       (case metrics_update demo_collab (0, 0) p' demo_annotation q' of
          Inl e \<Rightarrow> Inl e
        | Inr m' \<Rightarrow> score_stems demo_collab ''PTDB'' demo_files [] m') \<and>
     per_stem_loop demo_collab ''PTDB'' demo_files [''a''] (0, 0) [] =
       (case metrics_update demo_collab (0, 0) p' demo_annotation q' of
          Inl e \<Rightarrow> Inl e
        | Inr m' \<Rightarrow>
            (case metrics_compute demo_collab m' of
               Inl e \<Rightarrow> Inl e
             | Inr (pv, rv, fv, wv, rpv, rcv) \<Rightarrow>
                 per_stem_loop demo_collab ''PTDB'' demo_files [] (metrics_reset demo_collab m')
                   (dict_set [] ''a''
                      \<lparr>precision = pv, recall = rv, f1 = fv, wrmse = wv, rpa = rpv, rca = rcv\<rparr>)))"
proof -
  have a: "pitch_annotation demo_collab ''PTDB'' ''a'' = Inr demo_annotation"
    by (simp add: demo_collab_def)
  have p: "pitch_npy demo_files ''a'' = Some demo_pitch"
    by (simp add: demo_files_def np_save_def empty_files_def)
  have q: "periodicity_npy demo_files ''a'' = Some demo_periodicity"
    by (simp add: demo_files_def np_save_def empty_files_def)
  show ?thesis by (rule truncation_rule[OF a p q])
qed

lemma demo_truncated:
  "load_stem demo_collab ''PTDB'' demo_files ''a'' =
     Inr (\<lparr>ncols = 2, rows = [ [102, 50] ]\<rparr>, demo_annotation, \<lparr>ncols = 2, rows = [ [9 / 10, 1 / 10] ]\<rparr>)"
  by (simp add: load_stem_def demo_collab_def demo_files_def np_save_def empty_files_def
      demo_pitch_def demo_annotation_def demo_periodicity_def slice_cols_def)

lemma demo_dataset_stems: "dataset_stems demo_collab ''PTDB'' ''test'' = Inr ([''a''], [''t''])"
  by (simp add: dataset_stems_def demo_collab_def dict_index_def Let_def)

subsection \<open>The orchestrator: its stages, its files, its totals\<close>

lemma py_max_ge:
  assumes "py_max key xs = Inr b" "x \<in> set xs"
  shows "key x \<le> key b"
proof -
  have f: "key x \<le> key (foldl (\<lambda>b y. if key y > key b then y else b) z ys)"
    if "x \<in> set ys \<or> key x \<le> key z" for z ys
    using that
  proof (induction ys arbitrary: z)
    case Nil
    then show ?case by simp
  next
    case (Cons y ys)
    show ?case
      unfolding foldl_Cons
      by (rule Cons.IH) (use Cons.prems in \<open>auto split: if_splits\<close>)
  qed
  from assms show ?thesis by (cases xs) (auto intro: f)
qed

lemma load_stem_npy:
  assumes "pitch_npy fs' = pitch_npy fs" "periodicity_npy fs' = periodicity_npy fs"
  shows "load_stem c name fs' stem = load_stem c name fs stem"
  unfolding load_stem_def assms ..

lemma score_stems_npy:
  assumes "pitch_npy fs' = pitch_npy fs" "periodicity_npy fs' = periodicity_npy fs"
  shows "score_stems c name fs' stems m = score_stems c name fs stems m"
  by (induction stems arbitrary: m) (simp_all add: load_stem_npy[OF assms] split: sum.splits)

lemma per_stem_loop_npy:
  assumes "pitch_npy fs' = pitch_npy fs" "periodicity_npy fs' = periodicity_npy fs"
  shows "per_stem_loop c name fs' stems m res = per_stem_loop c name fs stems m res"
  by (induction stems arbitrary: m res) (simp_all add: load_stem_npy[OF assms] split: sum.splits)

lemma evaluate_at_threshold_npy:
  assumes "pitch_npy fs' = pitch_npy fs" "periodicity_npy fs' = periodicity_npy fs"
  shows "evaluate_at_threshold c name fs' tot t stems = evaluate_at_threshold c name fs tot t stems"
  by (simp add: evaluate_at_threshold_def score_stems_npy[OF assms])

lemma evaluate_per_stem_npy:
  assumes "pitch_npy fs' = pitch_npy fs" "periodicity_npy fs' = periodicity_npy fs"
  shows "evaluate_per_stem c name fs' t stems = evaluate_per_stem c name fs t stems"
  by (simp add: evaluate_per_stem_def per_stem_loop_npy[OF assms])

lemma json_keeps_npy [simp]:
  "pitch_npy (open_w fs file) = pitch_npy fs" "periodicity_npy (open_w fs file) = periodicity_npy fs"
  "pitch_npy (json_dump fs file doc) = pitch_npy fs"
  "periodicity_npy (json_dump fs file doc) = periodicity_npy fs"
  by (simp_all add: open_w_def json_dump_def)

lemma json_files_open_w: "json_files (open_w fs file) f = (if f = file then Some Empty_file else json_files fs f)"
  by (simp add: open_w_def)

lemma json_files_json_dump: "json_files (json_dump fs file doc) f = (if f = file then Some doc else json_files fs f)"
  by (simp add: json_dump_def)

lemma evaluate_json [simp]:
  "evaluate_at_threshold c name (open_w fs file) tot t stems = evaluate_at_threshold c name fs tot t stems"
  "evaluate_at_threshold c name (json_dump fs file doc) tot t stems = evaluate_at_threshold c name fs tot t stems"
  "evaluate_per_stem c name (open_w fs file) t stems = evaluate_per_stem c name fs t stems"
  "evaluate_per_stem c name (json_dump fs file doc) t stems = evaluate_per_stem c name fs t stems"
proof -
  show "evaluate_at_threshold c name (open_w fs file) tot t stems = evaluate_at_threshold c name fs tot t stems"
    by (rule evaluate_at_threshold_npy) (rule json_keeps_npy)+
  show "evaluate_at_threshold c name (json_dump fs file doc) tot t stems = evaluate_at_threshold c name fs tot t stems"
    by (rule evaluate_at_threshold_npy) (rule json_keeps_npy)+
  show "evaluate_per_stem c name (open_w fs file) t stems = evaluate_per_stem c name fs t stems"
    by (rule evaluate_per_stem_npy) (rule json_keeps_npy)+
  show "evaluate_per_stem c name (json_dump fs file doc) t stems = evaluate_per_stem c name fs t stems"
    by (rule evaluate_per_stem_npy) (rule json_keeps_npy)+
qed

lemma from_stems_unfold:
  "from_stems c name model_name skip_predictions hparam_stems test_stems ar fs =
     (case prediction_pass c name skip_predictions hparam_stems test_stems ar fs of
        (Inl e, fs1) \<Rightarrow> (Inl e, fs1)
      | (Inr tot, fs1) \<Rightarrow>
          (case calibrate (\<lambda>thresh_val. evaluate_at_threshold c name fs1 tot thresh_val hparam_stems) of
             Inl e \<Rightarrow> (Inl e, fs1)
           | Inr st \<Rightarrow>
               (case best_thresh (hparam_results st) of
                  Inl e \<Rightarrow> (Inl e, json_dump (open_w fs1 (hparam_file model_name name))
                            (hparam_file model_name name) (Hparam_json (hparam_results st)))
                | Inr best \<Rightarrow>
                    (case evaluate_per_stem c name fs1 best test_stems of
                       Inl e \<Rightarrow> (Inl e, open_w (json_dump (open_w fs1 (hparam_file model_name name))
                            (hparam_file model_name name) (Hparam_json (hparam_results st))) (per_stem_file model_name name))
                     | Inr res \<Rightarrow>
                         (evaluate_at_threshold c name fs1 tot best test_stems,
                          json_dump (open_w (json_dump (open_w fs1 (hparam_file model_name name))
                            (hparam_file model_name name) (Hparam_json (hparam_results st))) (per_stem_file model_name name))
                            (per_stem_file model_name name) (Per_stem_json res))))))"
  unfolding from_stems_def Let_def evaluate_json ..

lemma file_names_differ:
  "hparam_file m n \<noteq> per_stem_file m n" "aggregate_file m n \<noteq> hparam_file m n"
  "aggregate_file m n \<noteq> per_stem_file m n"
proof -
  show "hparam_file m n \<noteq> per_stem_file m n" by (simp add: hparam_file_def per_stem_file_def)
  have "length (aggregate_file m n) \<noteq> length (hparam_file m n)"
    by (simp add: hparam_file_def aggregate_file_def)
  then show "aggregate_file m n \<noteq> hparam_file m n" by auto
  have "length (aggregate_file m n) \<noteq> length (per_stem_file m n)"
    by (simp add: per_stem_file_def aggregate_file_def)
  then show "aggregate_file m n \<noteq> per_stem_file m n" by auto
qed

lemma predicting_totals:
  assumes "predicting c name ar stems tot fs = (Inr tot', fs')"
  shows "if ar then tot' = tot
         else total_seconds tot' = foldl (float_add c) (total_seconds tot) (map (stem_seconds c name) stems) \<and>
              total_frames tot' = total_frames tot + sum_list (map (stem_frames c name) stems) \<and>
              total_infers tot' = total_infers tot + sum_list (map (stem_infers c name) stems)"
  using assms
proof (induction stems arbitrary: tot fs)
  case Nil
  then show ?case by simp
next
  case (Cons stem stems)
  show ?case
  proof (cases ar)
    case True
    with Cons.prems obtain p q where "predicting c name ar stems tot (np_save fs stem p q) = (Inr tot', fs')"
      by (auto split: sum.splits)
    from Cons.IH[OF this] True show ?thesis by simp
  next
    case False
    with Cons.prems obtain p q secs infs where
      pf: "predict_from_file c name stem = Inr (p, q, secs, infs)" and
      r: "predicting c name ar stems
            (tot\<lparr>total_seconds := float_add c (total_seconds tot) secs,
                 total_frames := total_frames tot + ncols p,
                 total_infers := total_infers tot + infs\<rparr>) (np_save fs stem p q) = (Inr tot', fs')"
      by (auto split: sum.splits)
    from Cons.IH[OF r] False pf show ?thesis
      by (simp add: stem_seconds_def stem_frames_def stem_infers_def)
  qed
qed

lemma evaluate_at_threshold_totals:
  "evaluate_at_threshold c name fs tot t stems = Inr sc \<Longrightarrow>
     seconds sc = total_seconds tot \<and> frames sc = total_frames tot \<and> infers sc = total_infers tot"
  by (auto simp: evaluate_at_threshold_def split: sum.splits prod.splits)

subsection \<open>The small run, evaluated\<close>

lemma demo_prediction_pass:
  "prediction_pass demo_collab ''PTDB'' False [''a''] [''t''] False empty_files = (Inr demo_totals, demo_files)"
  by (simp add: prediction_pass_def demo_collab_def demo_files_def demo_totals_def demo_pitch_def)

lemma demo_prediction_pass_ar:
  "prediction_pass demo_collab ''PTDB'' False [''a''] [''t''] True empty_files = (Inr zero_totals, demo_files)"
  by (simp add: prediction_pass_def demo_collab_def demo_files_def zero_totals_def)

lemma demo_load:
  "load_stem demo_collab ''PTDB'' demo_files ''a'' =
     Inr (\<lparr>ncols = 2, rows = [ [102, 50] ]\<rparr>, demo_annotation, \<lparr>ncols = 2, rows = [ [9 / 10, 1 / 10] ]\<rparr>)"
  "load_stem demo_collab ''PTDB'' demo_files ''t'' =
     Inr (\<lparr>ncols = 2, rows = [ [102, 50] ]\<rparr>, demo_annotation, \<lparr>ncols = 2, rows = [ [9 / 10, 1 / 10] ]\<rparr>)"
  by (simp_all add: load_stem_def demo_collab_def demo_files_def np_save_def empty_files_def
      demo_pitch_def demo_annotation_def demo_periodicity_def slice_cols_def)

lemma demo_evaluate:
  "evaluate_at_threshold demo_collab ''PTDB'' demo_files tot t [''a''] = Inr (demo_scores tot t)"
  "evaluate_at_threshold demo_collab ''PTDB'' demo_files tot t [''t''] = Inr (demo_scores tot t)"
  by (simp_all add: evaluate_at_threshold_def demo_load demo_scores_def)
     (simp_all add: demo_collab_def demo_annotation_def)

lemma demo_evaluate_per_stem:
  "evaluate_per_stem demo_collab ''PTDB'' demo_files t [''t''] =
     Inr [(''t'', \<lparr>precision = 1, recall = 1, f1 = plateau_f1 t, wrmse = 0, rpa = 1, rca = 1\<rparr>)]"
  by (simp add: evaluate_per_stem_def demo_load) (simp add: demo_collab_def demo_annotation_def)

lemma demo_calibrate: "calibrate (\<lambda>t. Inr (demo_scores tot t)) = Inr (demo_final tot)"
  by (simp add: calibrate_def cal_init_def calibrate_loop.simps loop_body_def f1_at_def
      demo_scores_def plateau_f1_def demo_final_def Let_def)

lemma demo_best: "best_thresh (hparam_results (demo_final tot)) = Inr (1 / 2)"
  by (simp add: best_thresh_def demo_final_def dict_keys_def table_f1_def demo_scores_def plateau_f1_def)

lemma demo_run:
  "fst (from_stems demo_collab ''PTDB'' ''m'' False [''a''] [''t''] False empty_files) =
     Inr (demo_scores demo_totals (1 / 2))"
  by (simp add: from_stems_unfold demo_prediction_pass demo_evaluate demo_calibrate demo_best
      demo_evaluate_per_stem)

lemma demo_run_ar:
  "fst (from_stems demo_collab ''PTDB'' ''m'' False [''a''] [''t''] True empty_files) =
     Inr (demo_scores zero_totals (1 / 2))"
  by (simp add: from_stems_unfold demo_prediction_pass_ar demo_evaluate demo_calibrate demo_best
      demo_evaluate_per_stem)

lemma flat_evaluate:
  "evaluate_at_threshold demo_collab name empty_files zero_totals t [] = Inr flat_scores"
  by (simp add: evaluate_at_threshold_def demo_collab_def flat_scores_def zero_totals_def)

lemma flat_calibrate: "calibrate (\<lambda>t. Inr flat_scores) = Inr flat_final"
  by (simp add: calibrate_def cal_init_def calibrate_loop.simps loop_body_def f1_at_def
      flat_scores_def flat_final_def Let_def)

lemma flat_best: "best_thresh (hparam_results flat_final) = Inr 0"
  by (simp add: best_thresh_def flat_final_def dict_keys_def table_f1_def flat_scores_def)

lemma missing_per_stem:
  "evaluate_per_stem demo_collab ''PTDB'' empty_files t [''t''] = Inl (FileNotFoundError ''pitch/t.npy'')"
  by (simp add: evaluate_per_stem_def load_stem_def demo_collab_def empty_files_def)

lemma missing_prediction_pass:
  "prediction_pass demo_collab ''PTDB'' True hs ts ar empty_files = (Inr zero_totals, empty_files)"
  by (simp add: prediction_pass_def zero_totals_def)

lemma missing_run:
  "from_stems demo_collab ''PTDB'' ''m'' True [] [''t''] False empty_files =
     (Inl (FileNotFoundError ''pitch/t.npy''),
      open_w (json_dump (open_w empty_files (hparam_file ''m'' ''PTDB'')) (hparam_file ''m'' ''PTDB'')
                (Hparam_json (hparam_results flat_final)))
        (per_stem_file ''m'' ''PTDB''))"
  by (simp add: from_stems_unfold missing_prediction_pass flat_evaluate flat_calibrate flat_best
      missing_per_stem)

subsection \<open>The hyperparameter subset\<close>

lemma from_stems_calibrates:
  assumes "prediction_pass c name skip_predictions hparam_stems test_stems ar fs = (Inr tot, fs1)"
  shows "case calibrate (\<lambda>t. evaluate_at_threshold c name fs1 tot t hparam_stems) of
           Inl e \<Rightarrow>
             from_stems c name model_name skip_predictions hparam_stems test_stems ar fs = (Inl e, fs1)
         | Inr st \<Rightarrow>
             json_files (snd (from_stems c name model_name skip_predictions hparam_stems test_stems ar fs))
               (hparam_file model_name name) = Some (Hparam_json (hparam_results st))"
  by (simp add: from_stems_unfold assms json_files_json_dump json_files_open_w file_names_differ
      split: sum.splits)

text \<open>
  Claim C7. For every dataset name, the hyperparameter stems that \<open>dataset\<close> hands to
  \<open>from_stems\<close> are the prefix of the training partition's stem list, in its order, of
  length \<open>len // 5\<close>, and they are the stems the calibration scores: once the prediction
  pass has returned, the run calibrates with \<open>evaluate_at_threshold\<close> on exactly these
  stems; it raises what that calibration raises, and otherwise the hyperparameter file it
  writes is the table of that calibration.
\<close>

theorem hparam_stems_prefix:
  assumes "partitions c name = Inr parts" "dict_get parts ''train'' = Some train_stems"
    "dict_get parts partition_name = Some test_stems"
  shows "\<exists>hparam_stems rest.
     dataset_stems c name partition_name = Inr (hparam_stems, test_stems) \<and>
     train_stems = hparam_stems @ rest \<and>
     length hparam_stems = length train_stems div 5 \<and>
     dataset c name partition_name model_name skip_predictions ar fs =
       from_stems c name model_name skip_predictions hparam_stems test_stems ar fs \<and>
     (\<forall>tot fs1.
        prediction_pass c name skip_predictions hparam_stems test_stems ar fs = (Inr tot, fs1) \<longrightarrow>
        (case calibrate (\<lambda>t. evaluate_at_threshold c name fs1 tot t hparam_stems) of
           Inl e \<Rightarrow>
             dataset c name partition_name model_name skip_predictions ar fs = (Inl e, fs1)
         | Inr st \<Rightarrow>
             json_files (snd (dataset c name partition_name model_name skip_predictions ar fs))
               (hparam_file model_name name) = Some (Hparam_json (hparam_results st))))"
proof -
  let ?h = "take (length train_stems div 5) train_stems"
  have s: "dataset_stems c name partition_name = Inr (?h, test_stems)"
    using assms by (simp add: dataset_stems_def dict_index_def Let_def)
  have a: "train_stems = ?h @ drop (length train_stems div 5) train_stems" by simp
  have l: "length ?h = length train_stems div 5" by simp
  have d: "dataset c name partition_name model_name skip_predictions ar fs =
       from_stems c name model_name skip_predictions ?h test_stems ar fs"
    by (simp add: dataset_def s)
  have k: "\<forall>tot fs1.
        prediction_pass c name skip_predictions ?h test_stems ar fs = (Inr tot, fs1) \<longrightarrow>
        (case calibrate (\<lambda>t. evaluate_at_threshold c name fs1 tot t ?h) of
           Inl e \<Rightarrow>
             dataset c name partition_name model_name skip_predictions ar fs = (Inl e, fs1)
         | Inr st \<Rightarrow>
             json_files (snd (dataset c name partition_name model_name skip_predictions ar fs))
               (hparam_file model_name name) = Some (Hparam_json (hparam_results st)))"
    unfolding d using from_stems_calibrates by blast
  from s a l d k show ?thesis by blast
qed

theorem hparam_stems_prefix_witness:
  "dataset_stems demo_collab ''PTDB'' ''test'' = Inr ([''a''], [''t'']) \<and>
   (\<exists>rest. [''a'', ''b'', ''c'', ''d'', ''e'', ''f''] = [''a''] @ rest) \<and>
   length [''a''] = length [''a'', ''b'', ''c'', ''d'', ''e'', ''f''] div 5 \<and>
   dataset demo_collab ''PTDB'' ''test'' ''m'' False False empty_files =
     from_stems demo_collab ''PTDB'' ''m'' False [''a''] [''t''] False empty_files \<and>
   prediction_pass demo_collab ''PTDB'' False [''a''] [''t''] False empty_files
     = (Inr demo_totals, demo_files) \<and>
   calibrate (\<lambda>t. evaluate_at_threshold demo_collab ''PTDB'' demo_files demo_totals t [''a''])
     = Inr (demo_final demo_totals) \<and>
   json_files (snd (dataset demo_collab ''PTDB'' ''test'' ''m'' False False empty_files))
     (hparam_file ''m'' ''PTDB'') = Some (Hparam_json (hparam_results (demo_final demo_totals)))"
proof -
  have a: "partitions demo_collab ''PTDB'' =
      Inr [(''train'', [''a'', ''b'', ''c'', ''d'', ''e'', ''f'']), (''test'', [''t''])]"
    by (simp add: demo_collab_def)
  have b: "dict_get [(''train'', [''a'', ''b'', ''c'', ''d'', ''e'', ''f'']), (''test'', [''t''])] ''train''
      = Some [''a'', ''b'', ''c'', ''d'', ''e'', ''f'']" by simp
  have c: "dict_get [(''train'', [''a'', ''b'', ''c'', ''d'', ''e'', ''f'']), (''test'', [''t''])] ''test''
      = Some [''t'']" by simp
  from hparam_stems_prefix[OF a b c, of "''m''" False False empty_files]
  obtain hs rest where
    s: "dataset_stems demo_collab ''PTDB'' ''test'' = Inr (hs, [''t''])" and
    r: "[''a'', ''b'', ''c'', ''d'', ''e'', ''f''] = hs @ rest" and
    l: "length hs = length [''a'', ''b'', ''c'', ''d'', ''e'', ''f''] div 5" and
    d: "dataset demo_collab ''PTDB'' ''test'' ''m'' False False empty_files =
          from_stems demo_collab ''PTDB'' ''m'' False hs [''t''] False empty_files" and
    k: "\<forall>tot fs1.
        prediction_pass demo_collab ''PTDB'' False hs [''t''] False empty_files = (Inr tot, fs1) \<longrightarrow>
        (case calibrate (\<lambda>t. evaluate_at_threshold demo_collab ''PTDB'' fs1 tot t hs) of
           Inl e \<Rightarrow>
             dataset demo_collab ''PTDB'' ''test'' ''m'' False False empty_files = (Inl e, fs1)
         | Inr st \<Rightarrow>
             json_files (snd (dataset demo_collab ''PTDB'' ''test'' ''m'' False False empty_files))
               (hparam_file ''m'' ''PTDB'') = Some (Hparam_json (hparam_results st)))"
    by blast
  from s demo_dataset_stems have hs: "hs = [''a'']" by simp
  have cal: "calibrate (\<lambda>t. evaluate_at_threshold demo_collab ''PTDB'' demo_files demo_totals t [''a''])
     = Inr (demo_final demo_totals)"
    by (simp add: demo_evaluate demo_calibrate)
  from k[unfolded hs] demo_prediction_pass
  have "case calibrate (\<lambda>t. evaluate_at_threshold demo_collab ''PTDB'' demo_files demo_totals t [''a'']) of
           Inl e \<Rightarrow>
             dataset demo_collab ''PTDB'' ''test'' ''m'' False False empty_files = (Inl e, demo_files)
         | Inr st \<Rightarrow>
             json_files (snd (dataset demo_collab ''PTDB'' ''test'' ''m'' False False empty_files))
               (hparam_file ''m'' ''PTDB'') = Some (Hparam_json (hparam_results st))"
    by blast
  then have j: "json_files (snd (dataset demo_collab ''PTDB'' ''test'' ''m'' False False empty_files))
     (hparam_file ''m'' ''PTDB'') = Some (Hparam_json (hparam_results (demo_final demo_totals)))"
    by (simp only: cal sum.case)
  from s[unfolded hs] r[unfolded hs] l[unfolded hs] d[unfolded hs] demo_prediction_pass cal j
  show ?thesis by blast
qed

subsection \<open>The threshold used for the test stems; the totals\<close>



lemma from_stems_success:
  assumes "from_stems c name model_name skip_predictions hparam_stems test_stems ar fs = (Inr agg, fs')"
  obtains tot fs1 st best res where
    "prediction_pass c name skip_predictions hparam_stems test_stems ar fs = (Inr tot, fs1)"
    "calibrate (\<lambda>t. evaluate_at_threshold c name fs1 tot t hparam_stems) = Inr st"
    "best_thresh (hparam_results st) = Inr best"
    "evaluate_per_stem c name fs1 best test_stems = Inr res"
    "evaluate_at_threshold c name fs1 tot best test_stems = Inr agg"
    "fs' = json_dump (open_w (json_dump (open_w fs1 (hparam_file model_name name))
                            (hparam_file model_name name) (Hparam_json (hparam_results st)))
                        (per_stem_file model_name name))
             (per_stem_file model_name name) (Per_stem_json res)"
proof -
  obtain r1 fs1 where p: "prediction_pass c name skip_predictions hparam_stems test_stems ar fs = (r1, fs1)"
    by (cases "prediction_pass c name skip_predictions hparam_stems test_stems ar fs")
  from assms p obtain tot where r1: "r1 = Inr tot"
    by (cases r1) (simp_all add: from_stems_unfold)
  from assms p r1 obtain st where
    c: "calibrate (\<lambda>t. evaluate_at_threshold c name fs1 tot t hparam_stems) = Inr st"
    by (cases "calibrate (\<lambda>t. evaluate_at_threshold c name fs1 tot t hparam_stems)")
       (simp_all add: from_stems_unfold)
  from assms p r1 c obtain best where b: "best_thresh (hparam_results st) = Inr best"
    by (cases "best_thresh (hparam_results st)") (simp_all add: from_stems_unfold)
  from assms p r1 c b obtain res where e: "evaluate_per_stem c name fs1 best test_stems = Inr res"
    by (cases "evaluate_per_stem c name fs1 best test_stems") (simp_all add: from_stems_unfold)
  from assms p r1 c b e have
    "evaluate_at_threshold c name fs1 tot best test_stems = Inr agg"
    "fs' = json_dump (open_w (json_dump (open_w fs1 (hparam_file model_name name))
                            (hparam_file model_name name) (Hparam_json (hparam_results st)))
                        (per_stem_file model_name name))
             (per_stem_file model_name name) (Per_stem_json res)"
    by (simp_all add: from_stems_unfold)
  with p[unfolded r1] c b e show ?thesis by (rule that)
qed

text \<open>
  Claim C3. When \<open>from_stems\<close> returns, the threshold at which the test stems were scored,
  for the returned record and for the per-stem file alike, is \<open>best_thresh\<close>: a key of the
  calibration table whose F1 value is at least that of every key of the table, that is, of
  every threshold the loop ever recorded. It is selected from the table, not from the last
  \<open>left\<close> and \<open>right\<close> (in the run of the witness it is \<open>1/2\<close> while the loop ends with
  \<open>left = 1/4\<close> and \<open>right = 65/256\<close>).
\<close>

theorem final_threshold_is_table_argmax:
  assumes "from_stems c name model_name skip_predictions hparam_stems test_stems ar fs = (Inr agg, fs')"
  shows "\<exists>tot fs1 st best res.
     prediction_pass c name skip_predictions hparam_stems test_stems ar fs = (Inr tot, fs1) \<and>
     calibrate (\<lambda>t. evaluate_at_threshold c name fs1 tot t hparam_stems) = Inr st \<and>
     best_thresh (hparam_results st) = Inr best \<and>
     best \<in> set (dict_keys (hparam_results st)) \<and>
     (\<forall>x \<in> set (dict_keys (hparam_results st)).
        table_f1 (hparam_results st) x \<le> table_f1 (hparam_results st) best) \<and>
     evaluate_at_threshold c name fs1 tot best test_stems = Inr agg \<and>
     evaluate_per_stem c name fs1 best test_stems = Inr res \<and>
     json_files fs' (per_stem_file model_name name) = Some (Per_stem_json res)"
proof -
  from assms obtain tot fs1 st best res where
    p: "prediction_pass c name skip_predictions hparam_stems test_stems ar fs = (Inr tot, fs1)" and
    c: "calibrate (\<lambda>t. evaluate_at_threshold c name fs1 tot t hparam_stems) = Inr st" and
    b: "best_thresh (hparam_results st) = Inr best" and
    e: "evaluate_per_stem c name fs1 best test_stems = Inr res" and
    a: "evaluate_at_threshold c name fs1 tot best test_stems = Inr agg" and
    f: "fs' = json_dump (open_w (json_dump (open_w fs1 (hparam_file model_name name))
                            (hparam_file model_name name) (Hparam_json (hparam_results st)))
                        (per_stem_file model_name name))
             (per_stem_file model_name name) (Per_stem_json res)"
    by (rule from_stems_success)
  have m: "best \<in> set (dict_keys (hparam_results st))"
    by (rule py_max_mem[OF b[unfolded best_thresh_def]])
  have g: "\<forall>x \<in> set (dict_keys (hparam_results st)).
        table_f1 (hparam_results st) x \<le> table_f1 (hparam_results st) best"
    using py_max_ge[OF b[unfolded best_thresh_def]] by blast
  have j: "json_files fs' (per_stem_file model_name name) = Some (Per_stem_json res)"
    by (simp add: f json_files_json_dump)
  from p c b m g a e j show ?thesis by blast
qed

lemma demo_run_pair:
  "from_stems demo_collab ''PTDB'' ''m'' False [''a''] [''t''] False empty_files =
     (Inr (demo_scores demo_totals (1 / 2)),
      snd (from_stems demo_collab ''PTDB'' ''m'' False [''a''] [''t''] False empty_files))"
  using demo_run by (metis prod.collapse)

lemma demo_best_not_a_bound:
  "calibrate (\<lambda>t. evaluate_at_threshold demo_collab ''PTDB'' demo_files demo_totals t [''a''])
     = Inr (demo_final demo_totals) \<and>
   best_thresh (hparam_results (demo_final demo_totals)) = Inr (1 / 2) \<and>
   left (demo_final demo_totals) = 1 / 4 \<and> right (demo_final demo_totals) = 65 / 256"
  by (simp add: demo_evaluate demo_calibrate demo_best) (simp add: demo_final_def)

theorem final_threshold_is_table_argmax_witness:
  "(\<exists>tot fs1 st best res.
     prediction_pass demo_collab ''PTDB'' False [''a''] [''t''] False empty_files = (Inr tot, fs1) \<and>
     calibrate (\<lambda>t. evaluate_at_threshold demo_collab ''PTDB'' fs1 tot t [''a'']) = Inr st \<and>
     best_thresh (hparam_results st) = Inr best \<and>
     best \<in> set (dict_keys (hparam_results st)) \<and>
     (\<forall>x \<in> set (dict_keys (hparam_results st)).
        table_f1 (hparam_results st) x \<le> table_f1 (hparam_results st) best) \<and>
     evaluate_at_threshold demo_collab ''PTDB'' fs1 tot best [''t''] = Inr (demo_scores demo_totals (1 / 2)) \<and>
     evaluate_per_stem demo_collab ''PTDB'' fs1 best [''t''] = Inr res \<and>
     json_files (snd (from_stems demo_collab ''PTDB'' ''m'' False [''a''] [''t''] False empty_files))
       (per_stem_file ''m'' ''PTDB'') = Some (Per_stem_json res)) \<and>
   calibrate (\<lambda>t. evaluate_at_threshold demo_collab ''PTDB'' demo_files demo_totals t [''a''])
     = Inr (demo_final demo_totals) \<and>
   best_thresh (hparam_results (demo_final demo_totals)) = Inr (1 / 2) \<and>
   left (demo_final demo_totals) = 1 / 4 \<and> right (demo_final demo_totals) = 65 / 256"
  by (rule conjI[OF final_threshold_is_table_argmax[OF demo_run_pair] demo_best_not_a_bound])

lemma dict_get_mem:
  "distinct (dict_keys d) \<Longrightarrow> (k, v) \<in> set d \<Longrightarrow> dict_get d k = Some v"
  by (induction d) (auto simp: dict_keys_def rev_image_eqI)

lemma prediction_pass_totals:
  assumes "prediction_pass c name False hparam_stems test_stems ar fs = (Inr tot, fs1)"
  shows "if ar then total_seconds tot = 0 \<and> total_frames tot = 0 \<and> total_infers tot = 0
         else total_seconds tot = foldl (float_add c) 0 (map (stem_seconds c name) (hparam_stems @ test_stems)) \<and>
              total_frames tot = sum_list (map (stem_frames c name) (hparam_stems @ test_stems)) \<and>
              total_infers tot = sum_list (map (stem_infers c name) (hparam_stems @ test_stems))"
proof -
  from assms have "predicting c name ar (hparam_stems @ test_stems)
      \<lparr>total_seconds = 0, total_frames = 0, total_infers = 0\<rparr> fs = (Inr tot, fs1)"
    by (simp add: prediction_pass_def)
  from predicting_totals[OF this] show ?thesis by (auto split: if_splits)
qed

text \<open>
  What a run that does not reuse cached predictions reports. In windowed-batch mode the
  frames and the inference calls are the sums over the stems of
  \<open>hparam_stems + test_stems\<close>, and the seconds are the stems' seconds added one after the
  other with the float addition; in autoregressive mode all three are 0. These totals are
  in the returned record and in every entry of the hyperparameter table written to disk.
\<close>

lemma from_stems_totals:
  assumes "from_stems c name model_name False hparam_stems test_stems ar fs = (Inr agg, fs')"
  shows "(if ar then seconds agg = 0 \<and> frames agg = 0 \<and> infers agg = 0
          else seconds agg = foldl (float_add c) 0 (map (stem_seconds c name) (hparam_stems @ test_stems)) \<and>
               frames agg = sum_list (map (stem_frames c name) (hparam_stems @ test_stems)) \<and>
               infers agg = sum_list (map (stem_infers c name) (hparam_stems @ test_stems))) \<and>
         (\<exists>table. json_files fs' (hparam_file model_name name) = Some (Hparam_json table) \<and>
            list_all (\<lambda>(t, sc). seconds sc = seconds agg \<and> frames sc = frames agg \<and> infers sc = infers agg)
              table)"
proof -
  from assms obtain tot fs1 st best res where
    p: "prediction_pass c name False hparam_stems test_stems ar fs = (Inr tot, fs1)" and
    c: "calibrate (\<lambda>t. evaluate_at_threshold c name fs1 tot t hparam_stems) = Inr st" and
    a: "evaluate_at_threshold c name fs1 tot best test_stems = Inr agg" and
    f: "fs' = json_dump (open_w (json_dump (open_w fs1 (hparam_file model_name name))
                            (hparam_file model_name name) (Hparam_json (hparam_results st)))
                        (per_stem_file model_name name))
             (per_stem_file model_name name) (Per_stem_json res)"
    by (rule from_stems_success)
  note ta = evaluate_at_threshold_totals[OF a]
  have j: "json_files fs' (hparam_file model_name name) = Some (Hparam_json (hparam_results st))"
    by (simp add: f json_files_json_dump json_files_open_w file_names_differ)
  have "seconds sc = seconds agg \<and> frames sc = frames agg \<and> infers sc = infers agg"
    if "(t, sc) \<in> set (hparam_results st)" for t sc
  proof -
    have "distinct (dict_keys (hparam_results st))"
      using reach_memo[OF calibrate_reach(1)[OF c]] by (simp add: memo_inv_def)
    from dict_get_mem[OF this that] have g: "dict_get (hparam_results st) t = Some sc" .
    from reach_memo[OF calibrate_reach(1)[OF c]] g
    have "evaluate_at_threshold c name fs1 tot t hparam_stems = Inr sc"
      by (simp add: memo_inv_def)
    from evaluate_at_threshold_totals[OF this] ta show ?thesis by simp
  qed
  then have "list_all (\<lambda>(t, sc). seconds sc = seconds agg \<and> frames sc = frames agg \<and> infers sc = infers agg)
              (hparam_results st)"
    by (auto simp: list_all_iff)
  with j prediction_pass_totals[OF p] ta show ?thesis by (auto split: if_splits)
qed

lemma demo_contributions:
  "stem_seconds demo_collab name stem = 1 / 2" "stem_frames demo_collab name stem = 3"
  "stem_infers demo_collab name stem = 1"
  by (simp_all add: stem_seconds_def stem_frames_def stem_infers_def demo_collab_def demo_pitch_def)

lemma demo_run_ar_pair:
  "from_stems demo_collab ''PTDB'' ''m'' False [''a''] [''t''] True empty_files =
     (Inr (demo_scores zero_totals (1 / 2)),
      snd (from_stems demo_collab ''PTDB'' ''m'' False [''a''] [''t''] True empty_files))"
  using demo_run_ar by (metis prod.collapse)

text \<open>
  Claim C8. When predictions are not reused from cache, every stem of the prediction pass
  should add its seconds, frames and inference calls to the totals, in autoregressive as in
  windowed-batch mode, and the result records should report those totals. The code does so
  in windowed-batch mode only: the run over the stems \<open>a\<close> and \<open>t\<close>, each with a pitch of three
  frames, reports 1 second, 6 frames and 2 inference calls. In autoregressive mode the same
  two stems are predicted, again with three frames each, and the record returned reports
  0 seconds, 0 frames and 0 inference calls: lines 116-118 are in the \<open>else\<close> branch and the
  autoregressive branch has no counterpart.
\<close>

theorem autoregressive_totals_not_accumulated:
  "fst (from_stems demo_collab ''PTDB'' ''m'' False [''a''] [''t''] False empty_files) =
     Inr (demo_scores demo_totals (1 / 2)) \<and>
   predict_from_file demo_collab ''PTDB'' ''a'' = Inr (demo_pitch, demo_periodicity, 1 / 2, 1) \<and>
   predict_from_file demo_collab ''PTDB'' ''t'' = Inr (demo_pitch, demo_periodicity, 1 / 2, 1) \<and>
   seconds (demo_scores demo_totals (1 / 2)) = 1 \<and>
   frames (demo_scores demo_totals (1 / 2)) = 6 \<and>
   infers (demo_scores demo_totals (1 / 2)) = 2 \<and>
   fst (from_stems demo_collab ''PTDB'' ''m'' False [''a''] [''t''] True empty_files) =
     Inr (demo_scores zero_totals (1 / 2)) \<and>
   ar_predict demo_collab ''PTDB'' ''a'' = Inr (demo_pitch, demo_periodicity) \<and>
   ar_predict demo_collab ''PTDB'' ''t'' = Inr (demo_pitch, demo_periodicity) \<and>
   ncols demo_pitch = 3 \<and>
   seconds (demo_scores zero_totals (1 / 2)) = 0 \<and>
   frames (demo_scores zero_totals (1 / 2)) = 0 \<and>
   infers (demo_scores zero_totals (1 / 2)) = 0"
  using demo_run demo_run_ar
  by (simp add: demo_collab_def demo_pitch_def demo_scores_def zero_totals_def demo_totals_def)

subsection \<open>The JSON files when a run raises\<close>



lemma np_save_json [simp]: "json_files (np_save fs stem p q) = json_files fs"
  by (simp add: np_save_def)

lemma predicting_json: "json_files (snd (predicting c name ar stems tot fs)) = json_files fs"
  by (induction stems arbitrary: tot fs) (auto split: sum.splits)

lemma prediction_pass_json:
  "prediction_pass c name skip_predictions hparam_stems test_stems ar fs = (r, fs1) \<Longrightarrow>
     json_files fs1 = json_files fs"
  using predicting_json[of c name ar "hparam_stems @ test_stems"
      "\<lparr>total_seconds = 0, total_frames = 0, total_infers = 0\<rparr>" fs]
  by (auto simp: prediction_pass_def Let_def split: if_splits)

lemma from_stems_json_other:
  assumes "f \<noteq> hparam_file model_name name" "f \<noteq> per_stem_file model_name name"
  shows "json_files (snd (from_stems c name model_name skip_predictions hparam_stems test_stems ar fs)) f
           = json_files fs f"
proof -
  obtain r1 fs1 where p: "prediction_pass c name skip_predictions hparam_stems test_stems ar fs = (r1, fs1)"
    by (cases "prediction_pass c name skip_predictions hparam_stems test_stems ar fs")
  note j = prediction_pass_json[OF p]
  show ?thesis
    using assms
    by (simp add: from_stems_unfold p j json_files_json_dump json_files_open_w
        split: sum.splits)
qed

lemma hparam_file_written:
  assumes "from_stems c name model_name skip_predictions hparam_stems test_stems ar fs = (r, fs')"
  shows "(\<forall>e fs1.
            prediction_pass c name skip_predictions hparam_stems test_stems ar fs = (Inl e, fs1) \<longrightarrow>
            r = Inl e \<and>
            json_files fs' (hparam_file model_name name) = json_files fs (hparam_file model_name name)) \<and>
         (\<forall>tot fs1.
            prediction_pass c name skip_predictions hparam_stems test_stems ar fs = (Inr tot, fs1) \<longrightarrow>
            (case calibrate (\<lambda>t. evaluate_at_threshold c name fs1 tot t hparam_stems) of
               Inl e \<Rightarrow>
                 r = Inl e \<and>
                 json_files fs' (hparam_file model_name name) = json_files fs (hparam_file model_name name)
             | Inr st \<Rightarrow>
                 json_files fs' (hparam_file model_name name) = Some (Hparam_json (hparam_results st))))"
proof -
  have A: "r = Inl e \<and>
        json_files fs' (hparam_file model_name name) = json_files fs (hparam_file model_name name)"
    if p: "prediction_pass c name skip_predictions hparam_stems test_stems ar fs = (Inl e, fs1)"
    for e fs1
    using assms p prediction_pass_json[OF p] by (auto simp add: from_stems_unfold)
  have B: "case calibrate (\<lambda>t. evaluate_at_threshold c name fs1 tot t hparam_stems) of
               Inl e \<Rightarrow>
                 r = Inl e \<and>
                 json_files fs' (hparam_file model_name name) = json_files fs (hparam_file model_name name)
             | Inr st \<Rightarrow>
                 json_files fs' (hparam_file model_name name) = Some (Hparam_json (hparam_results st))"
    if p: "prediction_pass c name skip_predictions hparam_stems test_stems ar fs = (Inr tot, fs1)"
    for tot fs1
  proof (cases "calibrate (\<lambda>t. evaluate_at_threshold c name fs1 tot t hparam_stems)")
    case (Inl e)
    with assms p prediction_pass_json[OF p] show ?thesis by (auto simp add: from_stems_unfold)
  next
    case c: (Inr st)
    have "json_files fs' (hparam_file model_name name) = Some (Hparam_json (hparam_results st))"
      using assms p c
      by (auto simp add: from_stems_unfold json_files_json_dump json_files_open_w file_names_differ
          split: sum.splits)
    with c show ?thesis by simp
  qed
  from A B show ?thesis by blast
qed

lemma per_stem_file_written:
  assumes "from_stems c name model_name skip_predictions hparam_stems test_stems ar fs = (r, fs')"
    "prediction_pass c name skip_predictions hparam_stems test_stems ar fs = (Inr tot, fs1)"
    "calibrate (\<lambda>t. evaluate_at_threshold c name fs1 tot t hparam_stems) = Inr st"
    "best_thresh (hparam_results st) = Inr best"
  shows "case evaluate_per_stem c name fs1 best test_stems of
           Inl e \<Rightarrow> r = Inl e \<and> json_files fs' (per_stem_file model_name name) = Some Empty_file
         | Inr res \<Rightarrow> json_files fs' (per_stem_file model_name name) = Some (Per_stem_json res)"
  using assms
  by (auto simp add: from_stems_unfold json_files_json_dump json_files_open_w split: sum.splits)

lemma aggregate_file_written:
  assumes "dataset_to_file c name partition_name model_name skip_predictions ar gs = (r2, gs')"
  shows "case r2 of
           Inl e \<Rightarrow>
             dataset c name partition_name model_name skip_predictions ar
               (open_w gs (aggregate_file model_name name)) = (Inl e, gs') \<and>
             json_files gs' (aggregate_file model_name name) = Some Empty_file
         | Inr u \<Rightarrow>
             (\<exists>agg gs1.
                dataset c name partition_name model_name skip_predictions ar
                  (open_w gs (aggregate_file model_name name)) = (Inr agg, gs1) \<and>
                json_files gs' (aggregate_file model_name name) = Some (Aggregate_json agg))"
proof -
  let ?g0 = "open_w gs (aggregate_file model_name name)"
  obtain rd fs1 where d: "dataset c name partition_name model_name skip_predictions ar ?g0 = (rd, fs1)"
    by (cases "dataset c name partition_name model_name skip_predictions ar ?g0")
  have k: "json_files fs1 (aggregate_file model_name name) = Some Empty_file"
  proof (cases "dataset_stems c name partition_name")
    case (Inl e)
    with d show ?thesis by (auto simp: dataset_def json_files_open_w)
  next
    case (Inr hs_ts)
    obtain hs ts where "hs_ts = (hs, ts)" by (cases hs_ts)
    with Inr d have "fs1 = snd (from_stems c name model_name skip_predictions hs ts ar ?g0)"
      by (simp add: dataset_def)
    then show ?thesis
      by (simp add: from_stems_json_other[OF file_names_differ(2,3)] json_files_open_w)
  qed
  from assms d k show ?thesis
    by (cases rd) (auto simp: dataset_to_file_def Let_def json_files_json_dump)
qed

text \<open>
  Claim C9, amended. The hyperparameter file is written only after the calibration loop
  has returned: when the prediction pass or the calibration raises, the run raises and the
  file has the content it had before; when the calibration returns, the file holds its
  whole table, whatever happens later in the run. The per-stem file and the aggregate file
  are opened for writing, which creates or empties them, before what is to be dumped into
  them is computed: when \<open>evaluate_per_stem\<close> raises, the run raises and the per-stem file is
  left empty, and when \<open>dataset\<close> raises, the aggregate file is left empty. When
  \<open>evaluate_per_stem\<close> returns, the per-stem file holds the whole table it returned, and when
  \<open>dataset\<close> returns, the aggregate file holds the record it returned.
\<close>

theorem artifacts_written:
  assumes "from_stems c name model_name skip_predictions hparam_stems test_stems ar fs = (r, fs')"
    and "dataset_to_file c name partition_name model_name skip_predictions ar gs = (r2, gs')"
  shows
   "(\<forall>e fs1.
        prediction_pass c name skip_predictions hparam_stems test_stems ar fs = (Inl e, fs1) \<longrightarrow>
        r = Inl e \<and>
        json_files fs' (hparam_file model_name name) = json_files fs (hparam_file model_name name)) \<and>
    (\<forall>tot fs1.
        prediction_pass c name skip_predictions hparam_stems test_stems ar fs = (Inr tot, fs1) \<longrightarrow>
        (case calibrate (\<lambda>t. evaluate_at_threshold c name fs1 tot t hparam_stems) of
           Inl e \<Rightarrow>
             r = Inl e \<and>
             json_files fs' (hparam_file model_name name) = json_files fs (hparam_file model_name name)
         | Inr st \<Rightarrow>
             json_files fs' (hparam_file model_name name) = Some (Hparam_json (hparam_results st)))) \<and>
    (\<forall>tot fs1 st best.
        prediction_pass c name skip_predictions hparam_stems test_stems ar fs = (Inr tot, fs1) \<longrightarrow>
        calibrate (\<lambda>t. evaluate_at_threshold c name fs1 tot t hparam_stems) = Inr st \<longrightarrow>
        best_thresh (hparam_results st) = Inr best \<longrightarrow>
        (case evaluate_per_stem c name fs1 best test_stems of
           Inl e \<Rightarrow> r = Inl e \<and> json_files fs' (per_stem_file model_name name) = Some Empty_file
         | Inr res \<Rightarrow> json_files fs' (per_stem_file model_name name) = Some (Per_stem_json res))) \<and>
    (case r2 of
       Inl e \<Rightarrow>
         dataset c name partition_name model_name skip_predictions ar
           (open_w gs (aggregate_file model_name name)) = (Inl e, gs') \<and>
         json_files gs' (aggregate_file model_name name) = Some Empty_file
     | Inr u \<Rightarrow>
         (\<exists>agg gs1.
            dataset c name partition_name model_name skip_predictions ar
              (open_w gs (aggregate_file model_name name)) = (Inr agg, gs1) \<and>
            json_files gs' (aggregate_file model_name name) = Some (Aggregate_json agg)))"
  using hparam_file_written[OF assms(1)] per_stem_file_written[OF assms(1)]
    aggregate_file_written[OF assms(2)]
  by blast

text \<open>
  Claim C9 as stated fails. With predictions reused from a cache that lacks the test stem,
  per-stem scoring raises, and the run leaves on disk a per-stem file that did not exist
  before and is empty.
\<close>

theorem per_stem_file_left_empty_counterexample:
  "fst (from_stems demo_collab ''PTDB'' ''m'' True [] [''t''] False empty_files)
     = Inl (FileNotFoundError ''pitch/t.npy'') \<and>
   json_files (snd (from_stems demo_collab ''PTDB'' ''m'' True [] [''t''] False empty_files))
     (per_stem_file ''m'' ''PTDB'') = Some Empty_file \<and>
   json_files empty_files (per_stem_file ''m'' ''PTDB'') = None"
  by (simp add: missing_run json_files_open_w) (simp add: empty_files_def)

lemma missing_dataset_run:
  "fst (dataset_to_file demo_collab ''PTDB'' ''test'' ''m'' True False empty_files)
     = Inl (FileNotFoundError ''pitch/a.npy'')"
proof -
  have e: "evaluate_at_threshold demo_collab ''PTDB'' fs tot t [''a''] = Inl (FileNotFoundError ''pitch/a.npy'')"
    if "pitch_npy fs = Map.empty" for fs tot t
    by (simp add: evaluate_at_threshold_def load_stem_def demo_collab_def that)
  have c: "calibrate (\<lambda>t. Inl (FileNotFoundError ''pitch/a.npy'')) = Inl (FileNotFoundError ''pitch/a.npy'')"
    by (simp add: calibrate_def cal_init_def calibrate_loop.simps loop_body_def f1_at_def)
  have p: "prediction_pass demo_collab ''PTDB'' True hs ts ar fs = (Inr zero_totals, fs)" for hs ts ar fs
    by (simp add: prediction_pass_def zero_totals_def)
  have "pitch_npy (open_w empty_files f) = Map.empty" for f
    by (simp add: empty_files_def)
  from e[OF this] show ?thesis
    by (simp add: dataset_to_file_def dataset_def demo_dataset_stems from_stems_unfold p c Let_def)
qed


theorem artifacts_written_witness:
  "prediction_pass demo_collab ''PTDB'' True [] [''t''] False empty_files
     = (Inr zero_totals, empty_files) \<and>
   calibrate (\<lambda>t. evaluate_at_threshold demo_collab ''PTDB'' empty_files zero_totals t [])
     = Inr flat_final \<and>
   best_thresh (hparam_results flat_final) = Inr 0 \<and>
   evaluate_per_stem demo_collab ''PTDB'' empty_files 0 [''t'']
     = Inl (FileNotFoundError ''pitch/t.npy'') \<and>
   fst (from_stems demo_collab ''PTDB'' ''m'' True [] [''t''] False empty_files)
     = Inl (FileNotFoundError ''pitch/t.npy'') \<and>
   json_files (snd (from_stems demo_collab ''PTDB'' ''m'' True [] [''t''] False empty_files))
     (hparam_file ''m'' ''PTDB'') = Some (Hparam_json (hparam_results flat_final)) \<and>
   json_files (snd (from_stems demo_collab ''PTDB'' ''m'' True [] [''t''] False empty_files))
     (per_stem_file ''m'' ''PTDB'') = Some Empty_file \<and>
   fst (dataset_to_file demo_collab ''PTDB'' ''test'' ''m'' True False empty_files)
     = Inl (FileNotFoundError ''pitch/a.npy'') \<and>
   json_files (snd (dataset_to_file demo_collab ''PTDB'' ''test'' ''m'' True False empty_files))
     (aggregate_file ''m'' ''PTDB'') = Some Empty_file"
proof -
  let ?F = "from_stems demo_collab ''PTDB'' ''m'' True [] [''t''] False empty_files"
  let ?D = "dataset_to_file demo_collab ''PTDB'' ''test'' ''m'' True False empty_files"
  have F: "?F = (fst ?F, snd ?F)" and D: "?D = (fst ?D, snd ?D)" by simp_all
  note t = artifacts_written[OF F D]
  have p: "prediction_pass demo_collab ''PTDB'' True [] [''t''] False empty_files
             = (Inr zero_totals, empty_files)"
    by (rule missing_prediction_pass)
  have c: "calibrate (\<lambda>t. evaluate_at_threshold demo_collab ''PTDB'' empty_files zero_totals t [])
             = Inr flat_final"
    by (simp add: flat_evaluate flat_calibrate)
  from t p
  have "case calibrate (\<lambda>t. evaluate_at_threshold demo_collab ''PTDB'' empty_files zero_totals t []) of
          Inl e \<Rightarrow>
            fst ?F = Inl e \<and>
            json_files (snd ?F) (hparam_file ''m'' ''PTDB'') = json_files empty_files (hparam_file ''m'' ''PTDB'')
        | Inr st \<Rightarrow>
            json_files (snd ?F) (hparam_file ''m'' ''PTDB'') = Some (Hparam_json (hparam_results st))"
    by blast
  then have w1: "json_files (snd ?F) (hparam_file ''m'' ''PTDB'') = Some (Hparam_json (hparam_results flat_final))"
    by (simp only: c sum.case)
  from t p c flat_best
  have "case evaluate_per_stem demo_collab ''PTDB'' empty_files 0 [''t''] of
          Inl e \<Rightarrow> fst ?F = Inl e \<and> json_files (snd ?F) (per_stem_file ''m'' ''PTDB'') = Some Empty_file
        | Inr res \<Rightarrow> json_files (snd ?F) (per_stem_file ''m'' ''PTDB'') = Some (Per_stem_json res)"
    by blast
  then have w2: "fst ?F = Inl (FileNotFoundError ''pitch/t.npy'')"
    "json_files (snd ?F) (per_stem_file ''m'' ''PTDB'') = Some Empty_file"
    by (simp_all only: missing_per_stem sum.case)
  from t have "case fst ?D of
       Inl e \<Rightarrow>
         dataset demo_collab ''PTDB'' ''test'' ''m'' True False
           (open_w empty_files (aggregate_file ''m'' ''PTDB'')) = (Inl e, snd ?D) \<and>
         json_files (snd ?D) (aggregate_file ''m'' ''PTDB'') = Some Empty_file
     | Inr u \<Rightarrow>
         (\<exists>agg gs1.
            dataset demo_collab ''PTDB'' ''test'' ''m'' True False
              (open_w empty_files (aggregate_file ''m'' ''PTDB'')) = (Inr agg, gs1) \<and>
            json_files (snd ?D) (aggregate_file ''m'' ''PTDB'') = Some (Aggregate_json agg))"
    by blast
  then have w3: "json_files (snd ?D) (aggregate_file ''m'' ''PTDB'') = Some Empty_file"
    by (simp only: missing_dataset_run sum.case)
  from p c flat_best missing_per_stem w1 w2 w3 missing_dataset_run show ?thesis by blast
qed

end
